theory Spec2Isabelle
  imports Complex_Main "HOL-Library.Sublist"
begin

section \<open>JavaScript strings\<close>

text \<open>
  A JavaScript string is modelled as a \<open>string\<close>, one \<open>char\<close> per code unit, for the
  code units below 256 (ASCII and the Latin-1 supplement). The methods used by
  \<^verbatim>\<open>email.service.ts\<close> are written out below.
\<close>

definition lower_char :: "char \<Rightarrow> char" where
  "lower_char c =
     (let n = (of_char c :: nat)
      in if (65 \<le> n \<and> n \<le> 90) \<or> (192 \<le> n \<and> n \<le> 222 \<and> n \<noteq> 215)
         then char_of (n + 32) else c)"

definition toLowerCase :: "string \<Rightarrow> string" where
  "toLowerCase s = map lower_char s"

definition startsWith :: "string \<Rightarrow> string \<Rightarrow> bool" where
  "startsWith s p = (take (length p) s = p)"

definition endsWith :: "string \<Rightarrow> string \<Rightarrow> bool" where
  "endsWith s p = (length p \<le> length s \<and> drop (length s - length p) s = p)"

fun includes_str :: "string \<Rightarrow> string \<Rightarrow> bool" where
  "includes_str [] p = (p = [])"
| "includes_str (c # cs) p = (startsWith (c # cs) p \<or> includes_str cs p)"

text \<open>\<^verbatim>\<open>s.split('?')[0]\<close>: the part of \<open>s\<close> before its first question mark.\<close>

definition split_query_head :: "string \<Rightarrow> string" where
  "split_query_head s = takeWhile (\<lambda>c. c \<noteq> CHR ''?'') s"

section \<open>The decoded message\<close>

text \<open>
  \<^verbatim>\<open>Attachment\<close> and \<^verbatim>\<open>ParsedMail\<close> of mailparser, with the fields the service reads.
  The content is a \<^verbatim>\<open>Buffer\<close>, which the service only hands on, so its type is left
  open. \<^verbatim>\<open>html\<close> is \<^verbatim>\<open>string | false\<close>; \<open>text_body\<close> is the field \<^verbatim>\<open>text\<close>, a \<^verbatim>\<open>string | undefined\<close>.
\<close>

record 'b attachment =
  contentType :: string
  filename :: "string option"
  content :: 'b

record 'b parsedMail =
  attachments :: "'b attachment list"
  html :: "string option"
  text_body :: "string option"

subsection \<open>isJsonAttachment\<close>

definition isJsonAttachment :: "'b attachment \<Rightarrow> bool" where
  "isJsonAttachment a =
     (let contentType' = toLowerCase (contentType a);
          filename' = (case filename a of
                         None \<Rightarrow> []
                       | Some f \<Rightarrow> if f \<noteq> [] then toLowerCase f else [])
      in includes_str contentType' ''application/json'' \<or> endsWith filename' ''.json'')"

subsection \<open>The classification rule in the specification's words\<close>

text \<open>
  Two strings are equal up to case when they have the same lower-case form; a string
  contains a needle case-insensitively when one of its substrings equals the needle up to
  case, and ends with it case-insensitively when one of its suffixes does.
\<close>

definition eq_ignore_case :: "string \<Rightarrow> string \<Rightarrow> bool" where
  "eq_ignore_case s t = (map lower_char s = map lower_char t)"

definition spec_contains_ci :: "string \<Rightarrow> string \<Rightarrow> bool" where
  "spec_contains_ci s needle = (\<exists>m. sublist m s \<and> eq_ignore_case m needle)"

definition spec_ends_with_ci :: "string \<Rightarrow> string \<Rightarrow> bool" where
  "spec_ends_with_ci s needle = (\<exists>m. suffix m s \<and> eq_ignore_case m needle)"

definition spec_json_candidate :: "'b attachment \<Rightarrow> bool" where
  "spec_json_candidate a =
     (spec_contains_ci (contentType a) ''application/json'' \<or>
      (\<exists>f. filename a = Some f \<and> spec_ends_with_ci f ''.json''))"

section \<open>JavaScript values\<close>

text \<open>
  The values that \<^verbatim>\<open>JSON.parse\<close> and the HTTP client's decoded \<^verbatim>\<open>response.data\<close> can
  be. A number is an IEEE double, kept by its mathematical value (both zeros are
  \<open>Num 0\<close>). The service's functions return \<^verbatim>\<open>null\<close> for "no match", the same value as
  a parsed JSON \<^verbatim>\<open>null\<close>, so their results are \<open>jsval\<close>s and \<open>JNull\<close> is "no match".
\<close>

datatype jsnum = Num rat | PlusInfinity | MinusInfinity | NaN

datatype jsval =
    JNull
  | JBool bool
  | JNumber jsnum
  | JString string
  | JArray "jsval list"
  | JObject "(string \<times> jsval) list"

text \<open>The condition of \<^verbatim>\<open>if (v)\<close>: every value but \<^verbatim>\<open>null\<close>, \<^verbatim>\<open>false\<close>, zero, NaN and the empty string.\<close>

fun truthy :: "jsval \<Rightarrow> bool" where
  "truthy JNull = False"
| "truthy (JBool b) = b"
| "truthy (JNumber (Num q)) = (q \<noteq> 0)"
| "truthy (JNumber NaN) = False"
| "truthy (JNumber _) = True"
| "truthy (JString s) = (s \<noteq> [])"
| "truthy (JArray _) = True"
| "truthy (JObject _) = True"

fun typeof :: "jsval \<Rightarrow> string" where
  "typeof JNull = ''object''"
| "typeof (JBool _) = ''boolean''"
| "typeof (JNumber _) = ''number''"
| "typeof (JString _) = ''string''"
| "typeof (JArray _) = ''object''"
| "typeof (JObject _) = ''object''"

section \<open>The environment and the state\<close>

text \<open>
  An HTTP response as the service reads it: \<^verbatim>\<open>response.status\<close>,
  \<^verbatim>\<open>response.headers['content-type']\<close> (absent or a string) and \<^verbatim>\<open>response.data\<close>.
\<close>

record response =
  status :: nat
  content_type :: "string option"
  data :: jsval

text \<open>
  What the service calls and does not define. The world \<open>'w\<close> is everything outside the
  process (the network, the file system); a request may change it, so it is threaded
  through every call. \<open>None\<close> stands for a thrown error (the messages are left out).
  \<^item> \<open>http_get\<close>: the transport under \<^verbatim>\<open>axios.get\<close>, before the status is validated;
    \<open>http_get_buffer\<close> the same with \<^verbatim>\<open>responseType: 'arraybuffer'\<close>;
  \<^item> \<open>existsSync\<close>, \<open>readFileSync\<close>: \<^verbatim>\<open>fs\<close>;
  \<^item> \<open>simpleParser\<close>: mailparser;
  \<^item> \<open>toString_utf8\<close>: \<^verbatim>\<open>Buffer.toString('utf-8')\<close>; \<open>JSON_parse\<close>: \<^verbatim>\<open>JSON.parse\<close>;
  \<^item> \<open>anchor_hrefs\<close>: cheerio, \<^verbatim>\<open>$(element).attr('href')\<close> of every \<^verbatim>\<open>a\<close> element of a
    document, in document order (\<open>None\<close> where the attribute is absent);
  \<^item> \<open>URL_resolve link base\<close>: \<^verbatim>\<open>new URL(link, base).toString()\<close>.
\<close>

record ('w, 'b) env =
  http_get :: "string \<Rightarrow> 'w \<Rightarrow> response option \<times> 'w"
  http_get_buffer :: "string \<Rightarrow> 'w \<Rightarrow> (nat \<times> 'b) option \<times> 'w"
  existsSync :: "string \<Rightarrow> 'w \<Rightarrow> bool"
  readFileSync :: "string \<Rightarrow> 'w \<Rightarrow> 'b option"
  simpleParser :: "'b \<Rightarrow> 'b parsedMail option"
  toString_utf8 :: "'b \<Rightarrow> string"
  JSON_parse :: "string \<Rightarrow> jsval option"
  anchor_hrefs :: "string \<Rightarrow> string option list"
  URL_resolve :: "string \<Rightarrow> string \<Rightarrow> string option"

text \<open>
  What the process does that can be observed: the calls of the logger, one constructor for
  each call site of \<^verbatim>\<open>email.service.ts\<close>, and the HTTP requests it sends.
\<close>

datatype event =
    Log_ProcessingEmail string
  | Log_CheckingAttachments
  | Log_JsonFoundInAttachments
  | Log_CheckingLinks
  | Log_JsonFoundViaLinks
  | Warn_FailedToParse "string option"
  | Debug_CheckingLink string
  | Debug_FailedToCheckLink string
  | Debug_CheckingIndirectLink string
  | HttpGet string

record 'w state =
  world :: 'w
  trace :: "event list"

definition emit :: "event \<Rightarrow> 'w state \<Rightarrow> 'w state" where
  "emit e s = s\<lparr>trace := trace s @ [e]\<rparr>"

datatype error = BadRequestException | NotFoundException

subsection \<open>axios.get\<close>

text \<open>
  The request is sent; a transport error throws, and so does a status that
  \<^verbatim>\<open>validateStatus\<close> rejects. The default accepts the statuses from 200 to 299.
\<close>

definition default_validateStatus :: "nat \<Rightarrow> bool" where
  "default_validateStatus n = (200 \<le> n \<and> n < 300)"

definition axios_get ::
  "('w, 'b) env \<Rightarrow> (nat \<Rightarrow> bool) \<Rightarrow> string \<Rightarrow> 'w state \<Rightarrow> response option \<times> 'w state" where
  "axios_get E validateStatus url s =
     (let s1 = emit (HttpGet url) s
      in case http_get E url (world s1) of
           (None, w) \<Rightarrow> (None, s1\<lparr>world := w\<rparr>)
         | (Some r, w) \<Rightarrow>
             (if validateStatus (status r) then Some r else None, s1\<lparr>world := w\<rparr>))"

section \<open>The service\<close>

subsection \<open>getEmailContent\<close>

definition getEmailContent ::
  "('w, 'b) env \<Rightarrow> string \<Rightarrow> 'w state \<Rightarrow> (error + 'b) \<times> 'w state" where
  "getEmailContent E source s =
     (if startsWith source ''http://'' \<or> startsWith source ''https://'' then
        (let s1 = emit (HttpGet source) s
         in case http_get_buffer E source (world s1) of
              (None, w) \<Rightarrow> (Inl BadRequestException, s1\<lparr>world := w\<rparr>)
            | (Some (st, buf), w) \<Rightarrow>
                (if default_validateStatus st then Inr buf else Inl BadRequestException,
                 s1\<lparr>world := w\<rparr>))
      else if \<not> existsSync E source (world s) then (Inl NotFoundException, s)
      else (case readFileSync E source (world s) of
              None \<Rightarrow> (Inl BadRequestException, s)
            | Some buf \<Rightarrow> (Inr buf, s)))"

subsection \<open>extractJsonFromAttachments\<close>

text \<open>
  The \<^verbatim>\<open>for\<close> loop over the attachments. The \<^verbatim>\<open>try\<close> is inside the loop body: a parse
  that throws is logged as a warning and the loop goes on.
\<close>

fun attachments_loop ::
  "('w, 'b) env \<Rightarrow> 'b attachment list \<Rightarrow> 'w state \<Rightarrow> jsval \<times> 'w state" where
  "attachments_loop E [] s = (JNull, s)"
| "attachments_loop E (a # as) s =
     (if isJsonAttachment a then
        (case JSON_parse E (toString_utf8 E (content a)) of
           Some v \<Rightarrow> (v, s)
         | None \<Rightarrow> attachments_loop E as (emit (Warn_FailedToParse (filename a)) s))
      else attachments_loop E as s)"

definition extractJsonFromAttachments ::
  "('w, 'b) env \<Rightarrow> 'b parsedMail \<Rightarrow> 'w state \<Rightarrow> jsval \<times> 'w state" where
  "extractJsonFromAttachments E parsed s =
     (if attachments parsed = [] then (JNull, s)
      else attachments_loop E (attachments parsed) s)"

subsection \<open>Harvesting links\<close>

text \<open>
  A \<^verbatim>\<open>Set<string>\<close> is kept as the list of its elements in insertion order, which is the
  order its iteration follows; \<^verbatim>\<open>add\<close> of an element already there changes nothing.
\<close>

definition Set_add :: "string list \<Rightarrow> string \<Rightarrow> string list" where
  "Set_add links x = (if x \<in> set links then links else links @ [x])"

text \<open>
  \<^verbatim>\<open>$('a').each(...)\<close>: every \<^verbatim>\<open>a\<close> element whose \<^verbatim>\<open>href\<close> is there and not empty
  adds it to the set.
\<close>

definition add_hrefs :: "('w, 'b) env \<Rightarrow> string \<Rightarrow> string list \<Rightarrow> string list" where
  "add_hrefs E document links =
     foldl (\<lambda>acc href. case href of
                          None \<Rightarrow> acc
                        | Some h \<Rightarrow> if h \<noteq> [] then Set_add acc h else acc)
       links (anchor_hrefs E document)"

text \<open>
  \<^verbatim>\<open>text.match(/(https?:\/\/[^\s]+)/g)\<close>: the matches from left to right, none
  overlapping. A match starts with \<^verbatim>\<open>http://\<close> or \<^verbatim>\<open>https://\<close> and runs through the
  characters that follow up to the next white space, at least one.
\<close>

definition is_space :: "char \<Rightarrow> bool" where
  "is_space c =
     (let n = (of_char c :: nat)
      in n = 9 \<or> n = 10 \<or> n = 11 \<or> n = 12 \<or> n = 13 \<or> n = 32 \<or> n = 160)"

definition url_match_at :: "string \<Rightarrow> string option" where
  "url_match_at s =
     (let scheme = (if startsWith s ''https://'' then Some ''https://''
                    else if startsWith s ''http://'' then Some ''http://''
                    else None)
      in case scheme of
           None \<Rightarrow> None
         | Some p \<Rightarrow>
             (let rest = takeWhile (\<lambda>c. \<not> is_space c) (drop (length p) s)
              in if rest = [] then None else Some (p @ rest)))"

text \<open>After a match the search goes on behind it: a match is never empty.\<close>

fun match_urls :: "string \<Rightarrow> string list" where
  "match_urls [] = []"
| "match_urls (c # cs) =
     (case url_match_at (c # cs) of
        None \<Rightarrow> match_urls cs
      | Some m \<Rightarrow> m # match_urls (drop (length m - 1) cs))"

text \<open>Lines 106 to 124 of \<^verbatim>\<open>extractJsonFromLinks\<close>: the set of links of the two bodies.\<close>

definition harvest_links ::
  "('w, 'b) env \<Rightarrow> string option \<Rightarrow> string option \<Rightarrow> string list" where
  "harvest_links E html_body text_body' =
     (let links0 = [];
          links1 = (case html_body of
                      None \<Rightarrow> links0
                    | Some h \<Rightarrow> if h \<noteq> [] then add_hrefs E h links0 else links0);
          links2 = (case text_body' of
                      None \<Rightarrow> links1
                    | Some t \<Rightarrow> if t \<noteq> [] then foldl Set_add links1 (match_urls t)
                                else links1)
      in links2)"

subsection \<open>extractJsonFromHtmlPage\<close>

text \<open>The test that accepts a fetched page link (lines 195 to 201).\<close>

definition page_accepts :: "response \<Rightarrow> bool" where
  "page_accepts r =
     (status r = 200 \<and>
      ((case content_type r of
          None \<Rightarrow> False
        | Some ct \<Rightarrow> includes_str ct ''application/json'') \<or>
       typeof (data r) = ''object''))"

text \<open>The heuristic of line 191.\<close>

definition looks_like_json_file :: "string \<Rightarrow> bool" where
  "looks_like_json_file absoluteUrl =
     endsWith (split_query_head (toLowerCase absoluteUrl)) ''.json''"

fun page_loop ::
  "('w, 'b) env \<Rightarrow> string \<Rightarrow> string list \<Rightarrow> 'w state \<Rightarrow> jsval \<times> 'w state" where
  "page_loop E baseUrl [] s = (JNull, s)"
| "page_loop E baseUrl (link # links) s =
     (case URL_resolve E link baseUrl of
        None \<Rightarrow> page_loop E baseUrl links s
      | Some absoluteUrl \<Rightarrow>
          if looks_like_json_file absoluteUrl then
            (case axios_get E default_validateStatus absoluteUrl
                    (emit (Debug_CheckingIndirectLink absoluteUrl) s) of
               (None, s') \<Rightarrow> page_loop E baseUrl links s'
             | (Some jsonResponse, s') \<Rightarrow>
                 if page_accepts jsonResponse then (data jsonResponse, s')
                 else page_loop E baseUrl links s')
          else page_loop E baseUrl links s)"

definition extractJsonFromHtmlPage ::
  "('w, 'b) env \<Rightarrow> string \<Rightarrow> string \<Rightarrow> 'w state \<Rightarrow> jsval \<times> 'w state" where
  "extractJsonFromHtmlPage E html_doc baseUrl s =
     page_loop E baseUrl (add_hrefs E html_doc []) s"

subsection \<open>checkLinkForJson\<close>

text \<open>The test of the "direct JSON" case (lines 150 to 153).\<close>

definition direct_json :: "response \<Rightarrow> bool" where
  "direct_json r =
     (let contentType' = (case content_type r of None \<Rightarrow> [] | Some ct \<Rightarrow> ct)
      in includes_str contentType' ''application/json'' \<or>
         (typeof (data r) = ''object'' \<and> data r \<noteq> JNull))"

definition indirect_html :: "response \<Rightarrow> bool" where
  "indirect_html r =
     (let contentType' = (case content_type r of None \<Rightarrow> [] | Some ct \<Rightarrow> ct)
      in includes_str contentType' ''text/html'' \<and> typeof (data r) = ''string'')"

definition checkLinkForJson ::
  "('w, 'b) env \<Rightarrow> string \<Rightarrow> 'w state \<Rightarrow> jsval \<times> 'w state" where
  "checkLinkForJson E url s =
     (case axios_get E (\<lambda>_. True) url (emit (Debug_CheckingLink url) s) of
        (None, s') \<Rightarrow> (JNull, emit (Debug_FailedToCheckLink url) s')
      | (Some r, s') \<Rightarrow>
          if status r \<noteq> 200 then (JNull, s')
          else if direct_json r then (data r, s')
          else if indirect_html r then
            (case data r of
               JString page \<Rightarrow> extractJsonFromHtmlPage E page url s'
             | _ \<Rightarrow> (JNull, s'))
          else (JNull, s'))"

subsection \<open>extractJsonFromLinks\<close>

fun links_loop ::
  "('w, 'b) env \<Rightarrow> string list \<Rightarrow> 'w state \<Rightarrow> jsval \<times> 'w state" where
  "links_loop E [] s = (JNull, s)"
| "links_loop E (link # links) s =
     (if startsWith link ''mailto:'' \<or> startsWith link ''#'' then links_loop E links s
      else (case checkLinkForJson E link s of
              (result, s') \<Rightarrow> if truthy result then (result, s') else links_loop E links s'))"

definition extractJsonFromLinks ::
  "('w, 'b) env \<Rightarrow> string option \<Rightarrow> string option \<Rightarrow> 'w state \<Rightarrow> jsval \<times> 'w state" where
  "extractJsonFromLinks E html_body text_body' s =
     links_loop E (harvest_links E html_body text_body') s"

subsection \<open>processEmail\<close>

definition processEmail ::
  "('w, 'b) env \<Rightarrow> string \<Rightarrow> 'w state \<Rightarrow> (error + jsval) \<times> 'w state" where
  "processEmail E source s =
     (case getEmailContent E source (emit (Log_ProcessingEmail source) s) of
        (Inl err, s1) \<Rightarrow> (Inl err, s1)
      | (Inr emailBuffer, s1) \<Rightarrow>
          (case simpleParser E emailBuffer of
             None \<Rightarrow> (Inl BadRequestException, s1)
           | Some parsed \<Rightarrow>
               (case extractJsonFromAttachments E parsed (emit Log_CheckingAttachments s1) of
                  (attachmentJson, s2) \<Rightarrow>
                    if truthy attachmentJson
                    then (Inr attachmentJson, emit Log_JsonFoundInAttachments s2)
                    else (case extractJsonFromLinks E (html parsed) (text_body parsed)
                                 (emit Log_CheckingLinks s2) of
                            (linkJson, s3) \<Rightarrow>
                              if truthy linkJson
                              then (Inr linkJson, emit Log_JsonFoundViaLinks s3)
                              else (Inl NotFoundException, s3)))))"

section \<open>Notions of the specification\<close>

text \<open>
  The strings the harvester collects, before the set removes the repetitions: the
  non-empty \<^verbatim>\<open>href\<close>s of the HTML body (when there is one, not empty), then the
  matches of the text body.
\<close>

definition collected_links ::
  "('w, 'b) env \<Rightarrow> string option \<Rightarrow> string option \<Rightarrow> string list" where
  "collected_links E html_body text_body' =
     (case html_body of
        None \<Rightarrow> []
      | Some h \<Rightarrow> if h \<noteq> [] then [x. Some x \<leftarrow> anchor_hrefs E h, x \<noteq> []] else []) @
     (case text_body' of
        None \<Rightarrow> []
      | Some t \<Rightarrow> match_urls t)"

text \<open>Every element once, at the place of its first occurrence.\<close>

fun first_occurrences :: "'a list \<Rightarrow> 'a list" where
  "first_occurrences [] = []"
| "first_occurrences (x # xs) = x # filter (\<lambda>y. y \<noteq> x) (first_occurrences xs)"

text \<open>
  A URL with its query string stripped ends in \<^verbatim>\<open>.json\<close>, whatever the case: the URL is
  a part without question mark, which ends in \<^verbatim>\<open>.json\<close> up to case, followed by nothing
  or by a question mark and the rest (the query string is what the first question mark
  starts).
\<close>

definition spec_json_path :: "string \<Rightarrow> bool" where
  "spec_json_path u =
     (\<exists>p q. u = p @ q \<and> CHR ''?'' \<notin> set p \<and> (q = [] \<or> hd q = CHR ''?'') \<and>
            spec_ends_with_ci p ''.json'')"

text \<open>The text of an attachment, parsed.\<close>

definition parsed_content :: "('w, 'b) env \<Rightarrow> 'b attachment \<Rightarrow> jsval option" where
  "parsed_content E a = JSON_parse E (toString_utf8 E (content a))"

text \<open>A link that line 128 skips.\<close>

definition skipped_link :: "string \<Rightarrow> bool" where
  "skipped_link l = (startsWith l ''mailto:'' \<or> startsWith l ''#'')"

section \<open>A model of the URL constructor\<close>

text \<open>
  Modelled from the spec: \<^verbatim>\<open>new URL(link, base).toString()\<close> belongs to the platform and
  is not in the repository. The specification asks for the resolution of a reference
  against an absolute base, failing on a malformed URL. The model covers \<^verbatim>\<open>http\<close> and
  \<^verbatim>\<open>https\<close> bases and the references that need no normalisation (no dot segments, no
  escaping): a reference with a scheme stands for itself, one starting with \<^verbatim>\<open>//\<close>,
  \<^verbatim>\<open>/\<close>, \<^verbatim>\<open>?\<close> or \<^verbatim>\<open>#\<close> replaces the base from the authority, the path, the query or
  the fragment on, and any other replaces the last segment of the base's path. An
  \<^verbatim>\<open>http(s)\<close> reference with no host is malformed. Only the examples use the model: the
  theorems hold for every \<open>URL_resolve\<close>.
\<close>

definition is_alpha :: "char \<Rightarrow> bool" where
  "is_alpha c =
     (let n = (of_char c :: nat) in (65 \<le> n \<and> n \<le> 90) \<or> (97 \<le> n \<and> n \<le> 122))"

definition is_delim :: "char \<Rightarrow> bool" where
  "is_delim c = (c = CHR ''/'' \<or> c = CHR ''?'' \<or> c = CHR ''#'')"

definition has_scheme :: "string \<Rightarrow> bool" where
  "has_scheme link =
     (let name = takeWhile (\<lambda>c. c \<noteq> CHR '':'' \<and> \<not> is_delim c) link
      in name \<noteq> [] \<and> is_alpha (hd name) \<and> startsWith (drop (length name) link) '':'')"

definition directory :: "string \<Rightarrow> string" where
  "directory path = rev (dropWhile (\<lambda>c. c \<noteq> CHR ''/'') (rev path))"

text \<open>
  Modelled from the spec: the resolution of \<open>link\<close> against \<open>base\<close>, \<open>None\<close> where the
  constructor throws.
\<close>

definition URL_resolve_model :: "string \<Rightarrow> string \<Rightarrow> string option" where
  "URL_resolve_model link base =
     (if startsWith link ''http://'' \<or> startsWith link ''https://'' then
        (let after = drop (length (takeWhile (\<lambda>c. c \<noteq> CHR '':'') link) + 3) link
         in if after = [] \<or> hd after = CHR ''?'' \<or> hd after = CHR ''#'' then None
            else Some link)
      else if has_scheme link then Some link
      else if \<not> (startsWith base ''http://'' \<or> startsWith base ''https://'') then None
      else
        (let scheme = takeWhile (\<lambda>c. c \<noteq> CHR '':'') base;
             after = drop (length scheme + 3) base;
             authority = takeWhile (\<lambda>c. \<not> is_delim c) after;
             origin = scheme @ ''://'' @ authority;
             rest = drop (length authority) after;
             path0 = takeWhile (\<lambda>c. c \<noteq> CHR ''?'' \<and> c \<noteq> CHR ''#'') rest;
             path = (if path0 = [] then ''/'' else path0);
             query = takeWhile (\<lambda>c. c \<noteq> CHR ''#'') (drop (length path0) rest)
         in if link = [] then Some (origin @ path @ query)
            else if startsWith link ''//'' then Some (scheme @ '':'' @ link)
            else if startsWith link ''/'' then Some (origin @ link)
            else if startsWith link ''?'' then Some (origin @ path @ link)
            else if startsWith link ''#'' then Some (origin @ path @ query @ link)
            else Some (origin @ directory path @ link)))"

section \<open>A sample environment\<close>

text \<open>
  The environment of the examples. Its world never changes (\<open>unit\<close>) and a buffer is the
  text it holds. The file \<^verbatim>\<open>mail.eml\<close> exists and decodes to the message given; the web
  has the pages below and every other request fails in the network.
\<close>

definition body_two_links :: string where
  "body_two_links =
     ''<a href=https://host/page.html>page</a> <a href=https://host/file.json>file</a>''"

definition body_file_link :: string where
  "body_file_link = ''<a href=https://host/file.json>file</a>''"

definition body_mixed_links :: string where
  "body_mixed_links =
     ''<a href=mailto:team@host>mail</a> <a href=#top>top</a> <a name=x>x</a> <a href=https://host/file.json>file</a> <a href=https://host/file.json>again</a>''"

definition body_down_link :: string where
  "body_down_link =
     ''<a href=https://down.example/x>down</a> <a href=https://host/file.json>file</a>''"

definition body_late_link :: string where
  "body_late_link =
     ''<a href=mailto:team@host>mail</a> <a href=#top>top</a> <a href=https://down.example/x>down</a> <a href=https://host/missing>missing</a> <a href=https://host/file.json>file</a> <a href=https://host/page.html>page</a>''"

definition page_out :: string where
  "page_out = ''<a href=/assets/out.json>download</a>''"

definition page_landing :: string where
  "page_landing = ''<a href=http://>broken</a> <a href=about.html>about</a> <a href=data/export.json?v=2>export</a>''"

definition page_null_first :: string where
  "page_null_first = ''<a href=/null.json>first</a> <a href=/assets/out.json>second</a>''"

text \<open>What cheerio finds in these documents.\<close>

definition sample_anchor_hrefs :: "string \<Rightarrow> string option list" where
  "sample_anchor_hrefs document =
     (if document = body_two_links then
        [Some ''https://host/page.html'', Some ''https://host/file.json'']
      else if document = body_file_link then [Some ''https://host/file.json'']
      else if document = body_mixed_links then
        [Some ''mailto:team@host'', Some ''#top'', None, Some ''https://host/file.json'',
         Some ''https://host/file.json'']
      else if document = body_down_link then
        [Some ''https://down.example/x'', Some ''https://host/file.json'']
      else if document = body_late_link then
        [Some ''mailto:team@host'', Some ''#top'', Some ''https://down.example/x'',
         Some ''https://host/missing'', Some ''https://host/file.json'',
         Some ''https://host/page.html'']
      else if document = page_out then [Some ''/assets/out.json'']
      else if document = page_landing then
        [Some ''http://'', Some ''about.html'', Some ''data/export.json?v=2'']
      else if document = page_null_first then
        [Some ''/null.json'', Some ''/assets/out.json'']
      else [])"

text \<open>
  What \<^verbatim>\<open>JSON.parse\<close> returns on the texts of the examples; \<^verbatim>\<open>not valid json\<close> is the one
  text of the examples that is no JSON.
\<close>

definition sample_JSON_parse :: "string \<Rightarrow> jsval option" where
  "sample_JSON_parse t =
     (if t = ''{}'' then Some (JObject [])
      else if t = ''[1,2,3]'' then
        Some (JArray [JNumber (Num 1), JNumber (Num 2), JNumber (Num 3)])
      else if t = ''0'' then Some (JNumber (Num 0))
      else if t = ''false'' then Some (JBool False)
      else if t = ''true'' then Some (JBool True)
      else if t = ''null'' then Some JNull
      else None)"

definition json_123 :: jsval where
  "json_123 = JArray [JNumber (Num 1), JNumber (Num 2), JNumber (Num 3)]"

definition json_ok :: jsval where
  "json_ok = JObject [(''ok'', JBool True)]"

definition sample_http_get :: "string \<Rightarrow> response option" where
  "sample_http_get url =
     (if url = ''https://host/file.json'' then
        Some \<lparr>status = 200, content_type = Some ''application/json'', data = json_123\<rparr>
      else if url = ''https://host/page.html'' then
        Some \<lparr>status = 200, content_type = Some ''text/html; charset=utf-8'',
              data = JString page_out\<rparr>
      else if url = ''https://host/assets/out.json'' then
        Some \<lparr>status = 200, content_type = Some ''application/json'', data = json_ok\<rparr>
      else if url = ''https://host/index.html'' then
        Some \<lparr>status = 200, content_type = Some ''text/html'',
              data = JString page_null_first\<rparr>
      else if url = ''https://host/null.json'' then
        Some \<lparr>status = 200, content_type = Some ''text/plain'', data = JNull\<rparr>
      else if url = ''https://host/missing'' then
        Some \<lparr>status = 404, content_type = Some ''application/json'', data = json_ok\<rparr>
      else if url = ''https://example.com/landing'' then
        Some \<lparr>status = 200, content_type = Some ''text/html'', data = JString page_landing\<rparr>
      else if url = ''https://example.com/data/export.json?v=2'' then
        Some \<lparr>status = 200, content_type = Some ''application/json'', data = json_ok\<rparr>
      else None)"

definition sample_env :: "string parsedMail \<Rightarrow> (unit, string) env" where
  "sample_env mail =
     \<lparr>http_get = (\<lambda>url w. (sample_http_get url, w)),
      http_get_buffer = (\<lambda>url w. (None, w)),
      existsSync = (\<lambda>path w. path = ''mail.eml''),
      readFileSync = (\<lambda>path w. if path = ''mail.eml'' then Some ''(the bytes of mail.eml)'' else None),
      simpleParser = (\<lambda>buffer. Some mail),
      toString_utf8 = (\<lambda>buffer. buffer),
      JSON_parse = sample_JSON_parse,
      anchor_hrefs = sample_anchor_hrefs,
      URL_resolve = URL_resolve_model\<rparr>"

definition s0 :: "unit state" where
  "s0 = \<lparr>world = (), trace = []\<rparr>"

text \<open>The messages of the examples.\<close>

definition mail_broken_then_good :: "string parsedMail" where
  "mail_broken_then_good =
     \<lparr>attachments =
        [\<lparr>contentType = ''application/json'', filename = Some ''broken.json'',
          content = ''not valid json''\<rparr>,
         \<lparr>contentType = ''application/json'', filename = Some ''good.json'',
          content = ''[1,2,3]''\<rparr>],
      html = None, text_body = None\<rparr>"

definition mail_two_links :: "string parsedMail" where
  "mail_two_links = \<lparr>attachments = [], html = Some body_two_links, text_body = None\<rparr>"

definition mail_zero_attachment :: "string parsedMail" where
  "mail_zero_attachment =
     \<lparr>attachments =
        [\<lparr>contentType = ''text/plain'', filename = Some ''Zero.JSON'', content = ''0''\<rparr>],
      html = Some body_file_link, text_body = None\<rparr>"

definition mail_good_attachment :: "string parsedMail" where
  "mail_good_attachment =
     \<lparr>attachments =
        [\<lparr>contentType = ''image/png'', filename = Some ''logo.png'', content = ''[1,2,3]''\<rparr>,
         \<lparr>contentType = ''Application/JSON; charset=utf-8'', filename = None,
          content = ''{}''\<rparr>],
      html = Some body_file_link, text_body = None\<rparr>"

definition mail_mixed_links :: "string parsedMail" where
  "mail_mixed_links =
     \<lparr>attachments = [], html = Some body_mixed_links,
      text_body = Some ''see https://host/file.json or https://HOST/file.json or https://host/missing now''\<rparr>"

definition mail_late_link :: "string parsedMail" where
  "mail_late_link = \<lparr>attachments = [], html = Some body_late_link, text_body = None\<rparr>"

definition mail_down_link :: "string parsedMail" where
  "mail_down_link = \<lparr>attachments = [], html = Some body_down_link, text_body = None\<rparr>"

definition mail_only_broken :: "string parsedMail" where
  "mail_only_broken =
     \<lparr>attachments =
        [\<lparr>contentType = ''application/json'', filename = Some ''broken.json'',
          content = ''not valid json''\<rparr>],
      html = None, text_body = None\<rparr>"

text \<open>The warnings of a scan over attachments of which no candidate parses.\<close>

definition failed_warnings :: "'b attachment list \<Rightarrow> event list" where
  "failed_warnings as =
     map (\<lambda>b. Warn_FailedToParse (filename b)) (filter isJsonAttachment as)"

text \<open>
  The events of a page chase: each announces or sends the request for the resolution of
  one of the page's links that passes the heuristic.
\<close>

definition page_event :: "('w, 'b) env \<Rightarrow> string \<Rightarrow> string list \<Rightarrow> event \<Rightarrow> bool" where
  "page_event E baseUrl links e =
     (\<exists>link u. link \<in> set links \<and> URL_resolve E link baseUrl = Some u \<and>
        looks_like_json_file u \<and> (e = Debug_CheckingIndirectLink u \<or> e = HttpGet u))"

text \<open>No request gets through.\<close>

definition network_down :: "('w, 'b) env \<Rightarrow> bool" where
  "network_down E = (\<forall>url w. fst (http_get E url w) = None)"

definition down_env :: "(unit, string) env" where
  "down_env = (sample_env mail_down_link)\<lparr>http_get := (\<lambda>url w. (None, w))\<rparr>"

definition mail_zero_and_two_links :: "string parsedMail" where
  "mail_zero_and_two_links =
     \<lparr>attachments =
        [\<lparr>contentType = ''application/json'', filename = Some ''zero.json'', content = ''0''\<rparr>],
      html = Some body_two_links, text_body = None\<rparr>"

definition mail_true_attachment :: "string parsedMail" where
  "mail_true_attachment =
     \<lparr>attachments =
        [\<lparr>contentType = ''application/json'', filename = None, content = ''true''\<rparr>],
      html = Some body_file_link, text_body = None\<rparr>"

text \<open>The state in which the sample environment has read and decoded \<^verbatim>\<open>mail.eml\<close>.\<close>

definition s_read :: "unit state" where
  "s_read = \<lparr>world = (), trace = [Log_ProcessingEmail ''mail.eml'']\<rparr>"

section \<open>String methods and the library's predicates\<close>

lemma includes_str_sublist: "includes_str s p = sublist p s"
proof (induction s)
  case Nil
  then show ?case by auto
next
  case (Cons c cs)
  have "startsWith (c # cs) p = prefix p (c # cs)"
    unfolding startsWith_def prefix_def by (metis append_take_drop_id append_eq_conv_conj)
  with Cons show ?case by (simp add: sublist_Cons_right)
qed

lemma endsWith_suffix: "endsWith s p = suffix p s"
  unfolding endsWith_def
  by (metis append_take_drop_id same_append_eq suffix_drop suffix_length_le suffix_take)

lemma sublist_map_iff: "sublist p (map f s) = (\<exists>m. sublist m s \<and> map f m = p)"
  by (metis map_mono_sublist sublist_map_rightE)

lemma suffix_map_iff: "suffix p (map f s) = (\<exists>m. suffix m s \<and> map f m = p)"
  by (metis map_mono_suffix suffix_map_rightE)

lemma lower_application_json: "map lower_char ''application/json'' = ''application/json''"
  by code_simp

lemma lower_dot_json: "map lower_char ''.json'' = ''.json''"
  by code_simp

lemma includes_lower_iff:
  "includes_str (toLowerCase s) ''application/json'' = spec_contains_ci s ''application/json''"
  unfolding includes_str_sublist toLowerCase_def sublist_map_iff spec_contains_ci_def
    eq_ignore_case_def lower_application_json ..

lemma endsWith_lower_iff:
  "endsWith (toLowerCase s) ''.json'' = spec_ends_with_ci s ''.json''"
  unfolding endsWith_suffix toLowerCase_def suffix_map_iff spec_ends_with_ci_def
    eq_ignore_case_def lower_dot_json ..

lemma not_endsWith_empty: "\<not> endsWith [] ''.json''"
  by (simp add: endsWith_def)

lemma isJsonAttachment_spec: "isJsonAttachment a = spec_json_candidate a"
proof (cases "filename a")
  case None
  then show ?thesis
    by (simp add: isJsonAttachment_def spec_json_candidate_def includes_lower_iff
        not_endsWith_empty)
next
  case (Some f)
  show ?thesis
  proof (cases "f = []")
    case True
    have "\<not> spec_ends_with_ci [] ''.json''"
      by (simp add: spec_ends_with_ci_def eq_ignore_case_def)
    with True Some show ?thesis
      by (simp add: isJsonAttachment_def spec_json_candidate_def includes_lower_iff
          not_endsWith_empty)
  next
    case False
    with Some show ?thesis
      by (simp add: isJsonAttachment_def spec_json_candidate_def includes_lower_iff
          endsWith_lower_iff)
  qed
qed

section \<open>The attachment scanner\<close>

text \<open>
  C3. An attachment is a JSON candidate exactly when its content type contains
  \<^verbatim>\<open>application/json\<close>, whatever the case of its letters, or it has a file name that ends
  with \<^verbatim>\<open>.json\<close>, whatever the case. Each of the two is enough, and an attachment with no
  file name is classified by its content type alone.
\<close>

theorem isJsonAttachment_iff_spec:
  "(isJsonAttachment a \<longleftrightarrow>
      spec_contains_ci (contentType a) ''application/json'' \<or>
      (\<exists>f. filename a = Some f \<and> spec_ends_with_ci f ''.json'')) \<and>
   (filename a = None \<longrightarrow>
      isJsonAttachment a = spec_contains_ci (contentType a) ''application/json'')"
  by (simp add: isJsonAttachment_spec spec_json_candidate_def)

theorem isJsonAttachment_iff_spec_witness:
  "isJsonAttachment
     \<lparr>contentType = ''Application/JSON; charset=utf-8'', filename = None, content = ''{}''\<rparr> \<and>
   spec_contains_ci ''Application/JSON; charset=utf-8'' ''application/json'' \<and>
   spec_ends_with_ci ''Zero.JSON'' ''.json'' \<and>
   \<not> spec_contains_ci ''image/png'' ''application/json'' \<and>
   \<not> spec_ends_with_ci ''logo.png'' ''.json''"
proof -
  let ?a = "\<lparr>contentType = ''Application/JSON; charset=utf-8'', filename = None,
             content = ''{}''\<rparr>"
  let ?z = "\<lparr>contentType = ''text/plain'', filename = Some ''Zero.JSON'', content = ''0''\<rparr>"
  let ?l = "\<lparr>contentType = ''image/png'', filename = Some ''logo.png'', content = ''[1,2,3]''\<rparr>"
  have a: "isJsonAttachment ?a" by code_simp
  have z: "isJsonAttachment ?z" by code_simp
  have zc: "\<not> includes_str (toLowerCase ''text/plain'') ''application/json''" by code_simp
  have l: "\<not> isJsonAttachment ?l" by code_simp
  from a isJsonAttachment_iff_spec [of ?a]
  have 1: "spec_contains_ci ''Application/JSON; charset=utf-8'' ''application/json''"
    by simp
  from z zc isJsonAttachment_iff_spec [of ?z]
  have 2: "spec_ends_with_ci ''Zero.JSON'' ''.json''"
    by (simp add: includes_lower_iff)
  from l isJsonAttachment_iff_spec [of ?l]
  have 3: "\<not> spec_contains_ci ''image/png'' ''application/json'' \<and>
           \<not> spec_ends_with_ci ''logo.png'' ''.json''"
    by simp
  from a 1 2 3 show ?thesis by simp
qed

lemma attachments_loop_skip:
  "\<forall>b\<in>set pre. isJsonAttachment b \<longrightarrow> parsed_content E b = None \<Longrightarrow>
   attachments_loop E (pre @ rest) s =
   attachments_loop E rest (s\<lparr>trace := trace s @ failed_warnings pre\<rparr>)"
proof (induction pre arbitrary: s)
  case Nil
  then show ?case by (simp add: failed_warnings_def)
next
  case (Cons b pre)
  then show ?case
    by (simp add: failed_warnings_def parsed_content_def emit_def)
qed

text \<open>
  C1, as the code has it. The scan returns the parsed content of the first candidate
  whose content parses: the candidates before it, which do not parse, are each logged as
  a warning and passed over, and the scan goes on to the later attachments. It reports
  "no match" (\<^verbatim>\<open>null\<close>) when no candidate parses.
\<close>

theorem attachments_first_parsable:
  "(attachments parsed = pre @ a # post \<and>
    (\<forall>b\<in>set pre. isJsonAttachment b \<longrightarrow> parsed_content E b = None) \<and>
    isJsonAttachment a \<and> parsed_content E a = Some v \<longrightarrow>
    extractJsonFromAttachments E parsed s =
      (v, s\<lparr>trace := trace s @ failed_warnings pre\<rparr>)) \<and>
   ((\<forall>b\<in>set (attachments parsed). isJsonAttachment b \<longrightarrow> parsed_content E b = None) \<longrightarrow>
    extractJsonFromAttachments E parsed s =
      (JNull, s\<lparr>trace := trace s @ failed_warnings (attachments parsed)\<rparr>))"
proof (intro conjI impI)
  assume h: "attachments parsed = pre @ a # post \<and>
    (\<forall>b\<in>set pre. isJsonAttachment b \<longrightarrow> parsed_content E b = None) \<and>
    isJsonAttachment a \<and> parsed_content E a = Some v"
  then have "attachments_loop E (attachments parsed) s =
      attachments_loop E (a # post) (s\<lparr>trace := trace s @ failed_warnings pre\<rparr>)"
    by (simp add: attachments_loop_skip)
  with h show "extractJsonFromAttachments E parsed s =
      (v, s\<lparr>trace := trace s @ failed_warnings pre\<rparr>)"
    by (simp add: extractJsonFromAttachments_def parsed_content_def)
next
  assume h: "\<forall>b\<in>set (attachments parsed). isJsonAttachment b \<longrightarrow> parsed_content E b = None"
  have "attachments_loop E (attachments parsed @ []) s =
      attachments_loop E [] (s\<lparr>trace := trace s @ failed_warnings (attachments parsed)\<rparr>)"
    using h by (rule attachments_loop_skip)
  then show "extractJsonFromAttachments E parsed s =
      (JNull, s\<lparr>trace := trace s @ failed_warnings (attachments parsed)\<rparr>)"
    by (simp add: extractJsonFromAttachments_def failed_warnings_def)
qed

theorem attachments_first_parsable_witness:
  "extractJsonFromAttachments (sample_env mail_broken_then_good) mail_broken_then_good s0 =
     (json_123, \<lparr>world = (), trace = [Warn_FailedToParse (Some ''broken.json'')]\<rparr>) \<and>
   extractJsonFromAttachments (sample_env mail_only_broken) mail_only_broken s0 =
     (JNull, \<lparr>world = (), trace = [Warn_FailedToParse (Some ''broken.json'')]\<rparr>)"
proof -
  let ?E = "sample_env mail_broken_then_good"
  let ?a1 = "\<lparr>contentType = ''application/json'', filename = Some ''broken.json'',
          content = ''not valid json''\<rparr>"
  let ?a2 = "\<lparr>contentType = ''application/json'', filename = Some ''good.json'',
          content = ''[1,2,3]''\<rparr>"
  have split: "attachments mail_broken_then_good = [?a1] @ ?a2 # []"
    by (simp add: mail_broken_then_good_def)
  have c1: "isJsonAttachment ?a1" by code_simp
  have c2: "isJsonAttachment ?a2" by code_simp
  have p1: "parsed_content ?E ?a1 = None" by code_simp
  have p2: "parsed_content ?E ?a2 = Some json_123" by code_simp
  have p1': "parsed_content (sample_env mail_only_broken) ?a1 = None" by code_simp
  have w: "failed_warnings [?a1] = [Warn_FailedToParse (Some ''broken.json'')]"
    using c1 by (simp add: failed_warnings_def)
  have first: "extractJsonFromAttachments ?E mail_broken_then_good s0 =
      (json_123, s0\<lparr>trace := trace s0 @ failed_warnings [?a1]\<rparr>)"
    using attachments_first_parsable
        [of mail_broken_then_good "[?a1]" ?a2 "[]" ?E json_123 s0]
      split c2 p1 p2 by simp
  have second: "extractJsonFromAttachments (sample_env mail_only_broken) mail_only_broken s0 =
      (JNull, s0\<lparr>trace := trace s0 @ failed_warnings (attachments mail_only_broken)\<rparr>)"
    using attachments_first_parsable
        [of mail_only_broken "[]" ?a1 "[]" "sample_env mail_only_broken" JNull s0]
      p1' by (simp add: mail_only_broken_def)
  from first second w show ?thesis
    by (simp add: s0_def mail_only_broken_def)
qed

text \<open>
  C1 as the specification states it fails: the first candidate of this message does not
  parse, and the scan still returns the content of the second.
\<close>

theorem no_fallthrough_counterexample:
  "isJsonAttachment (attachments mail_broken_then_good ! 0) \<and>
   parsed_content (sample_env mail_broken_then_good)
     (attachments mail_broken_then_good ! 0) = None \<and>
   fst (extractJsonFromAttachments (sample_env mail_broken_then_good)
          mail_broken_then_good s0) = json_123 \<and>
   json_123 \<noteq> JNull"
  by code_simp

section \<open>The link harvester\<close>

lemma set_first_occurrences: "set (first_occurrences xs) = set xs"
  by (induction xs) auto

lemma distinct_first_occurrences: "distinct (first_occurrences xs)"
  by (induction xs) (auto simp: set_first_occurrences)

lemma first_occurrences_snoc:
  "first_occurrences (xs @ [x]) =
     (if x \<in> set xs then first_occurrences xs else first_occurrences xs @ [x])"
  by (induction xs) (auto simp: set_first_occurrences)

lemma foldl_Set_add: "foldl Set_add [] xs = first_occurrences xs"
proof (induction xs rule: rev_induct)
  case Nil
  then show ?case by simp
next
  case (snoc x xs)
  then show ?case
    by (simp add: Set_add_def first_occurrences_snoc set_first_occurrences)
qed

lemma add_hrefs_foldl:
  "foldl (\<lambda>acc href. case href of None \<Rightarrow> acc
                       | Some h \<Rightarrow> if h \<noteq> [] then Set_add acc h else acc) acc hs =
   foldl Set_add acc [x. Some x \<leftarrow> hs, x \<noteq> []]"
proof (induction hs arbitrary: acc)
  case Nil
  then show ?case by simp
next
  case (Cons h hs)
  then show ?case by (cases h) auto
qed

lemma harvest_links_foldl:
  "harvest_links E html_body text_body' =
     foldl Set_add [] (collected_links E html_body text_body')"
  by (auto simp: harvest_links_def collected_links_def add_hrefs_def add_hrefs_foldl Let_def
      split: option.splits)

text \<open>
  C6. Whatever the two bodies, the harvester returns every collected link string once,
  compared as it stands, and the set is iterated in the order of insertion: the links
  appear in the order of their first occurrences.
\<close>

theorem harvest_links_unique_in_order:
  "harvest_links E html_body text_body' =
     first_occurrences (collected_links E html_body text_body') \<and>
   distinct (harvest_links E html_body text_body') \<and>
   set (harvest_links E html_body text_body') = set (collected_links E html_body text_body')"
  by (simp add: harvest_links_foldl foldl_Set_add distinct_first_occurrences
      set_first_occurrences)

theorem harvest_links_unique_in_order_witness:
  "collected_links (sample_env mail_mixed_links) (html mail_mixed_links)
     (text_body mail_mixed_links) =
     [''mailto:team@host'', ''#top'', ''https://host/file.json'', ''https://host/file.json'',
      ''https://host/file.json'', ''https://HOST/file.json'', ''https://host/missing''] \<and>
   harvest_links (sample_env mail_mixed_links) (html mail_mixed_links)
     (text_body mail_mixed_links) =
     [''mailto:team@host'', ''#top'', ''https://host/file.json'', ''https://HOST/file.json'',
      ''https://host/missing'']"
proof -
  let ?E = "sample_env mail_mixed_links"
  have c: "collected_links ?E (html mail_mixed_links) (text_body mail_mixed_links) =
     [''mailto:team@host'', ''#top'', ''https://host/file.json'', ''https://host/file.json'',
      ''https://host/file.json'', ''https://HOST/file.json'', ''https://host/missing'']"
    by code_simp
  have "first_occurrences [''mailto:team@host'', ''#top'', ''https://host/file.json'',
      ''https://host/file.json'', ''https://host/file.json'', ''https://HOST/file.json'',
      ''https://host/missing''] =
     [''mailto:team@host'', ''#top'', ''https://host/file.json'', ''https://HOST/file.json'',
      ''https://host/missing'']"
    by simp
  with c harvest_links_unique_in_order
      [of ?E "html mail_mixed_links" "text_body mail_mixed_links"]
  show ?thesis by simp
qed

section \<open>The link resolver and the page chaser\<close>

lemma axios_get_state:
  "axios_get E v url s =
     (case fst (http_get E url (world s)) of
        None \<Rightarrow> None
      | Some r \<Rightarrow> if v (status r) then Some r else None,
      \<lparr>world = snd (http_get E url (world s)), trace = trace s @ [HttpGet url]\<rparr>)"
  by (cases s; cases "http_get E url (world s)")
     (auto simp: axios_get_def emit_def Let_def split: option.splits)

lemma axios_get_trace: "trace (snd (axios_get E v url s)) = trace s @ [HttpGet url]"
  by (simp add: axios_get_state)

lemma page_event_Cons: "page_event E b links e \<Longrightarrow> page_event E b (l # links) e"
  by (auto simp: page_event_def)

lemma page_loop_trace:
  "\<exists>evs. trace (snd (page_loop E baseUrl links s)) = trace s @ evs \<and>
         (\<forall>e\<in>set evs. page_event E baseUrl links e)"
proof (induction links arbitrary: s)
  case Nil
  then show ?case by simp
next
  case (Cons link links)
  show ?case
  proof (cases "URL_resolve E link baseUrl")
    case None
    with Cons [of s] show ?thesis by (auto intro: page_event_Cons)
  next
    case (Some u)
    show ?thesis
    proof (cases "looks_like_json_file u")
      case False
      with Some Cons [of s] show ?thesis by (auto intro: page_event_Cons)
    next
      case True
      let ?s1 = "emit (Debug_CheckingIndirectLink u) s"
      obtain r s2 where ax: "axios_get E default_validateStatus u ?s1 = (r, s2)"
        by (cases "axios_get E default_validateStatus u ?s1")
      have t2: "trace s2 = trace s @ [Debug_CheckingIndirectLink u, HttpGet u]"
        using axios_get_trace [of E default_validateStatus u ?s1] ax
        by (simp add: emit_def)
      have here: "\<forall>e\<in>set [Debug_CheckingIndirectLink u, HttpGet u].
                    page_event E baseUrl (link # links) e"
        using Some True by (auto simp: page_event_def)
      from Cons [of s2] obtain evs where
        evs: "trace (snd (page_loop E baseUrl links s2)) = trace s2 @ evs"
          "\<forall>e\<in>set evs. page_event E baseUrl links e"
        by blast
      show ?thesis
      proof (cases "\<exists>jr. r = Some jr \<and> page_accepts jr")
        case True
        then have "snd (page_loop E baseUrl (link # links) s) = s2"
          using Some \<open>looks_like_json_file u\<close> ax by auto
        with t2 here show ?thesis by auto
      next
        case False
        then have "page_loop E baseUrl (link # links) s = page_loop E baseUrl links s2"
          using Some \<open>looks_like_json_file u\<close> ax by (cases r) auto
        with t2 evs here show ?thesis
          by (auto intro!: exI [of _ "[Debug_CheckingIndirectLink u, HttpGet u] @ evs"]
              intro: page_event_Cons)
      qed
    qed
  qed
qed

lemma page_event_not_check: "page_event E b links e \<Longrightarrow> e \<noteq> Debug_CheckingLink l"
  by (auto simp: page_event_def)

lemma checkLinkForJson_trace:
  "\<exists>evs. trace (snd (checkLinkForJson E url s)) =
           trace s @ Debug_CheckingLink url # HttpGet url # evs \<and>
         (\<forall>l. Debug_CheckingLink l \<notin> set evs)"
proof -
  let ?s1 = "emit (Debug_CheckingLink url) s"
  obtain r s2 where ax: "axios_get E (\<lambda>_. True) url ?s1 = (r, s2)"
    by (cases "axios_get E (\<lambda>_. True) url ?s1")
  have t2: "trace s2 = trace s @ [Debug_CheckingLink url, HttpGet url]"
    using axios_get_trace [of E "\<lambda>_. True" url ?s1] ax by (simp add: emit_def)
  show ?thesis
  proof (cases r)
    case None
    with ax t2 show ?thesis by (simp add: checkLinkForJson_def emit_def)
  next
    case (Some resp)
    show ?thesis
    proof (cases "status resp = 200 \<and> \<not> direct_json resp \<and> indirect_html resp \<and>
                  (\<exists>page. data resp = JString page)")
      case True
      then obtain page where page: "data resp = JString page" by blast
      from page_loop_trace [of E url "add_hrefs E page []" s2] obtain evs where
        evs: "trace (snd (page_loop E url (add_hrefs E page []) s2)) = trace s2 @ evs"
          "\<forall>e\<in>set evs. page_event E url (add_hrefs E page []) e"
        by blast
      have "checkLinkForJson E url s = page_loop E url (add_hrefs E page []) s2"
        using True Some ax page
        by (simp add: checkLinkForJson_def extractJsonFromHtmlPage_def)
      with evs t2 show ?thesis
        by (auto dest: page_event_not_check)
    next
      case False
      then have "snd (checkLinkForJson E url s) = s2"
        using Some ax by (auto simp: checkLinkForJson_def split: jsval.splits)
      with t2 show ?thesis by simp
    qed
  qed
qed

lemma links_loop_trace:
  "\<exists>evs. trace (snd (links_loop E links s)) = trace s @ evs \<and>
         (\<forall>l. Debug_CheckingLink l \<in> set evs \<longrightarrow> l \<in> set links \<and> \<not> skipped_link l)"
proof (induction links arbitrary: s)
  case Nil
  then show ?case by simp
next
  case (Cons link links)
  show ?case
  proof (cases "skipped_link link")
    case True
    then have "links_loop E (link # links) s = links_loop E links s"
      by (simp add: skipped_link_def)
    with Cons [of s] show ?thesis by auto
  next
    case False
    obtain r s1 where ck: "checkLinkForJson E link s = (r, s1)"
      by (cases "checkLinkForJson E link s")
    from checkLinkForJson_trace [of E link s] ck obtain evs1 where
      evs1: "trace s1 = trace s @ Debug_CheckingLink link # HttpGet link # evs1"
        "\<forall>l. Debug_CheckingLink l \<notin> set evs1"
      by auto
    show ?thesis
    proof (cases "truthy r")
      case True
      then have "snd (links_loop E (link # links) s) = s1"
        using False ck by (simp add: skipped_link_def)
      with evs1 False show ?thesis by auto
    next
      case nt: False
      then have eq: "links_loop E (link # links) s = links_loop E links s1"
        using False ck by (simp add: skipped_link_def)
      from Cons [of s1] obtain evs where
        evs: "trace (snd (links_loop E links s1)) = trace s1 @ evs"
          "\<forall>l. Debug_CheckingLink l \<in> set evs \<longrightarrow> l \<in> set links \<and> \<not> skipped_link l"
        by blast
      show ?thesis
        using eq evs evs1 False
        by (auto intro!: exI [of _ "Debug_CheckingLink link # HttpGet link # evs1 @ evs"])
    qed
  qed
qed


lemma startsWith_prefix: "startsWith s p = prefix p s"
  unfolding startsWith_def prefix_def by (metis append_take_drop_id append_eq_conv_conj)

text \<open>
  C5. A link that begins with \<^verbatim>\<open>mailto:\<close> or with \<^verbatim>\<open>#\<close> is never handed to the link
  resolver: among the events of a run of the link strategies there is no call of
  \<^verbatim>\<open>checkLinkForJson\<close> on it.
\<close>

theorem skipped_links_never_resolved:
  "prefix ''mailto:'' l \<or> prefix ''#'' l \<Longrightarrow>
   \<exists>evs. trace (snd (extractJsonFromLinks E html_body text_body' s)) = trace s @ evs \<and>
         Debug_CheckingLink l \<notin> set evs"
  using links_loop_trace [of E "harvest_links E html_body text_body'" s]
  by (auto simp: extractJsonFromLinks_def skipped_link_def startsWith_prefix)

theorem skipped_links_never_resolved_witness:
  "harvest_links (sample_env mail_mixed_links) (html mail_mixed_links)
     (text_body mail_mixed_links) =
     [''mailto:team@host'', ''#top'', ''https://host/file.json'', ''https://HOST/file.json'',
      ''https://host/missing''] \<and>
   trace (snd (extractJsonFromLinks (sample_env mail_mixed_links) (html mail_mixed_links)
     (text_body mail_mixed_links) s0)) =
     [Debug_CheckingLink ''https://host/file.json'', HttpGet ''https://host/file.json''] \<and>
   (\<exists>evs. trace (snd (extractJsonFromLinks (sample_env mail_mixed_links)
             (html mail_mixed_links) (text_body mail_mixed_links) s0)) = trace s0 @ evs \<and>
          Debug_CheckingLink ''mailto:team@host'' \<notin> set evs) \<and>
   (\<exists>evs. trace (snd (extractJsonFromLinks (sample_env mail_mixed_links)
             (html mail_mixed_links) (text_body mail_mixed_links) s0)) = trace s0 @ evs \<and>
          Debug_CheckingLink ''#top'' \<notin> set evs)"
proof -
  let ?E = "sample_env mail_mixed_links"
  have h: "harvest_links ?E (html mail_mixed_links) (text_body mail_mixed_links) =
     [''mailto:team@host'', ''#top'', ''https://host/file.json'', ''https://HOST/file.json'',
      ''https://host/missing'']"
    by code_simp
  have t: "trace (snd (extractJsonFromLinks ?E (html mail_mixed_links)
     (text_body mail_mixed_links) s0)) =
     [Debug_CheckingLink ''https://host/file.json'', HttpGet ''https://host/file.json'']"
    by code_simp
  have m: "prefix ''mailto:'' ''mailto:team@host'' \<or> prefix ''#'' ''mailto:team@host''"
    by simp
  have a: "prefix ''mailto:'' ''#top'' \<or> prefix ''#'' ''#top''"
    by simp
  from h t skipped_links_never_resolved [OF m, of ?E "html mail_mixed_links" "text_body mail_mixed_links" s0]
    skipped_links_never_resolved [OF a, of ?E "html mail_mixed_links" "text_body mail_mixed_links" s0]
  show ?thesis by blast
qed

text \<open>
  C7. A response whose status is not 200 is "no match" for its link, whatever its content
  type and body: the resolver returns \<^verbatim>\<open>null\<close> having sent its one request and nothing
  else.
\<close>

theorem not_200_no_match:
  "http_get E url (world s) = (Some r, w') \<Longrightarrow> status r \<noteq> 200 \<Longrightarrow>
   checkLinkForJson E url s =
     (JNull, \<lparr>world = w', trace = trace s @ [Debug_CheckingLink url, HttpGet url]\<rparr>)"
  by (simp add: checkLinkForJson_def axios_get_state emit_def)

theorem not_200_no_match_witness:
  "sample_http_get ''https://host/missing'' =
     Some \<lparr>status = 404, content_type = Some ''application/json'', data = json_ok\<rparr> \<and>
   checkLinkForJson (sample_env mail_two_links) ''https://host/missing'' s0 =
     (JNull, \<lparr>world = (), trace = [Debug_CheckingLink ''https://host/missing'',
                                    HttpGet ''https://host/missing'']\<rparr>)"
proof -
  let ?r = "\<lparr>status = 404, content_type = Some ''application/json'', data = json_ok\<rparr>"
  have g: "sample_http_get ''https://host/missing'' = Some ?r"
    by (simp add: sample_http_get_def)
  then have "http_get (sample_env mail_two_links) ''https://host/missing'' (world s0) =
      (Some ?r, ())"
    by (simp add: sample_env_def)
  from not_200_no_match [OF this] g show ?thesis
    by (simp add: s0_def)
qed

lemma checkLinkForJson_error:
  "http_get E url (world s) = (None, w') \<Longrightarrow>
   checkLinkForJson E url s =
     (JNull, \<lparr>world = w', trace = trace s @ [Debug_CheckingLink url, HttpGet url,
                                            Debug_FailedToCheckLink url]\<rparr>)"
  by (simp add: checkLinkForJson_def axios_get_state emit_def)

lemma links_loop_network_down:
  "network_down E \<Longrightarrow> fst (links_loop E links s) = JNull"
proof (induction links arbitrary: s)
  case Nil
  then show ?case by simp
next
  case (Cons link links)
  obtain w' where "http_get E link (world s) = (None, w')"
    using Cons.prems unfolding network_down_def
    by (metis prod.collapse)
  from checkLinkForJson_error [OF this] Cons show ?case by simp
qed

text \<open>
  C8. An error of the request for a link is caught: the resolver logs it and returns "no
  match", and the loop over the links goes on with the next link from the state the
  failed request left. With every request failing the link strategies end in "no match".
  A failed request of the page chaser is passed over in the same way.
\<close>

theorem link_errors_are_no_match:
  "(http_get E url (world s) = (None, w') \<longrightarrow>
      checkLinkForJson E url s =
        (JNull, \<lparr>world = w', trace = trace s @ [Debug_CheckingLink url, HttpGet url,
                                               Debug_FailedToCheckLink url]\<rparr>) \<and>
      (\<not> skipped_link url \<longrightarrow>
         links_loop E (url # rest) s =
           links_loop E rest
             \<lparr>world = w', trace = trace s @ [Debug_CheckingLink url, HttpGet url,
                                            Debug_FailedToCheckLink url]\<rparr>)) \<and>
   (network_down E \<longrightarrow> fst (extractJsonFromLinks E html_body text_body' s) = JNull) \<and>
   (URL_resolve E link baseUrl = Some u \<and> looks_like_json_file u \<and>
    fst (http_get E u (world s)) = None \<longrightarrow>
      page_loop E baseUrl (link # links) s =
        page_loop E baseUrl links
          \<lparr>world = snd (http_get E u (world s)),
           trace = trace s @ [Debug_CheckingIndirectLink u, HttpGet u]\<rparr>)"
proof (intro conjI impI)
  assume h: "http_get E url (world s) = (None, w')"
  then show ck: "checkLinkForJson E url s =
        (JNull, \<lparr>world = w', trace = trace s @ [Debug_CheckingLink url, HttpGet url,
                                               Debug_FailedToCheckLink url]\<rparr>)"
    by (rule checkLinkForJson_error)
  assume "\<not> skipped_link url"
  with ck show "links_loop E (url # rest) s =
           links_loop E rest
             \<lparr>world = w', trace = trace s @ [Debug_CheckingLink url, HttpGet url,
                                            Debug_FailedToCheckLink url]\<rparr>"
    by (simp add: skipped_link_def)
next
  assume "network_down E"
  then show "fst (extractJsonFromLinks E html_body text_body' s) = JNull"
    by (simp add: extractJsonFromLinks_def links_loop_network_down)
next
  assume "URL_resolve E link baseUrl = Some u \<and> looks_like_json_file u \<and>
    fst (http_get E u (world s)) = None"
  then show "page_loop E baseUrl (link # links) s =
        page_loop E baseUrl links
          \<lparr>world = snd (http_get E u (world s)),
           trace = trace s @ [Debug_CheckingIndirectLink u, HttpGet u]\<rparr>"
    by (simp add: axios_get_state emit_def)
qed


theorem link_errors_are_no_match_witness:
  "sample_http_get ''https://down.example/x'' = None \<and>
   checkLinkForJson (sample_env mail_down_link) ''https://down.example/x'' s0 =
     (JNull, \<lparr>world = (), trace = [Debug_CheckingLink ''https://down.example/x'',
        HttpGet ''https://down.example/x'',
        Debug_FailedToCheckLink ''https://down.example/x'']\<rparr>) \<and>
   links_loop (sample_env mail_down_link)
     [''https://down.example/x'', ''https://host/file.json''] s0 =
     (json_123, \<lparr>world = (), trace = [Debug_CheckingLink ''https://down.example/x'',
        HttpGet ''https://down.example/x'',
        Debug_FailedToCheckLink ''https://down.example/x'',
        Debug_CheckingLink ''https://host/file.json'',
        HttpGet ''https://host/file.json'']\<rparr>) \<and>
   fst (extractJsonFromLinks down_env (Some body_down_link) None s0) = JNull \<and>
   page_loop (sample_env mail_down_link) ''https://host/page.html''
     [''/dead.json'', ''/assets/out.json''] s0 =
     (json_ok, \<lparr>world = (), trace = [Debug_CheckingIndirectLink ''https://host/dead.json'',
        HttpGet ''https://host/dead.json'',
        Debug_CheckingIndirectLink ''https://host/assets/out.json'',
        HttpGet ''https://host/assets/out.json'']\<rparr>)"
proof -
  let ?E = "sample_env mail_down_link"
  let ?d = "''https://down.example/x''"
  let ?s1 = "\<lparr>world = (), trace = [Debug_CheckingLink ?d, HttpGet ?d,
               Debug_FailedToCheckLink ?d]\<rparr>"
  have g: "sample_http_get ?d = None"
    by (simp add: sample_http_get_def)
  then have h: "http_get ?E ?d (world s0) = (None, ())"
    by (simp add: sample_env_def)
  have ns: "\<not> skipped_link ?d" by code_simp
  have rest: "links_loop ?E [''https://host/file.json''] ?s1 =
     (json_123, \<lparr>world = (), trace = [Debug_CheckingLink ?d, HttpGet ?d,
        Debug_FailedToCheckLink ?d, Debug_CheckingLink ''https://host/file.json'',
        HttpGet ''https://host/file.json'']\<rparr>)"
    by code_simp
  have nd: "network_down down_env"
    by (simp add: network_down_def down_env_def)
  have r: "URL_resolve ?E ''/dead.json'' ''https://host/page.html'' =
      Some ''https://host/dead.json''"
    by code_simp
  have l: "looks_like_json_file ''https://host/dead.json''" by code_simp
  have f: "http_get ?E ''https://host/dead.json'' (world s0) = (None, ())"
    by (simp add: sample_env_def sample_http_get_def)
  have rest_page: "page_loop ?E ''https://host/page.html'' [''/assets/out.json'']
      \<lparr>world = (), trace = [Debug_CheckingIndirectLink ''https://host/dead.json'',
        HttpGet ''https://host/dead.json'']\<rparr> =
     (json_ok, \<lparr>world = (), trace = [Debug_CheckingIndirectLink ''https://host/dead.json'',
        HttpGet ''https://host/dead.json'',
        Debug_CheckingIndirectLink ''https://host/assets/out.json'',
        HttpGet ''https://host/assets/out.json'']\<rparr>)"
    by code_simp
  note inst = link_errors_are_no_match
      [where E = ?E and url = ?d and s = s0 and w' = "()"
         and rest = "[''https://host/file.json'']" and link = "''/dead.json''"
         and baseUrl = "''https://host/page.html''" and u = "''https://host/dead.json''"
         and links = "[''/assets/out.json'']"]
  note inst_down = link_errors_are_no_match
      [where E = down_env and html_body = "Some body_down_link" and text_body' = None
         and s = s0]
  from inst h ns rest g r l f rest_page inst_down nd
  show ?thesis
    by (simp add: s0_def)
qed

lemma lower_char_question: "(lower_char c = CHR ''?'') = (c = CHR ''?'')"
proof
  assume "c = CHR ''?''"
  then show "lower_char c = CHR ''?''" by (simp add: lower_char_def)
next
  assume h: "lower_char c = CHR ''?''"
  show "c = CHR ''?''"
  proof (rule ccontr)
    assume n: "c \<noteq> CHR ''?''"
    let ?n = "of_char c :: nat"
    from h n have range: "(65 \<le> ?n \<and> ?n \<le> 90) \<or> (192 \<le> ?n \<and> ?n \<le> 222 \<and> ?n \<noteq> 215)"
      and up: "char_of (?n + 32) = CHR ''?''"
      by (auto simp: lower_char_def Let_def split: if_splits)
    from up have "of_char (char_of (?n + 32) :: char) = (of_char (CHR ''?'') :: nat)"
      by simp
    then have "(?n + 32) mod 256 = 63" by simp
    with range show False by auto
  qed
qed

lemma takeWhile_lower:
  "takeWhile (\<lambda>c. c \<noteq> CHR ''?'') (map lower_char u) =
   map lower_char (takeWhile (\<lambda>c. c \<noteq> CHR ''?'') u)"
  by (induction u) (auto simp: lower_char_question)

lemma looks_like_json_file_takeWhile:
  "looks_like_json_file u = spec_ends_with_ci (takeWhile (\<lambda>c. c \<noteq> CHR ''?'') u) ''.json''"
  using endsWith_lower_iff [of "takeWhile (\<lambda>c. c \<noteq> CHR ''?'') u"]
  by (simp add: looks_like_json_file_def split_query_head_def toLowerCase_def takeWhile_lower)

lemma takeWhile_path:
  "CHR ''?'' \<notin> set p \<Longrightarrow> q = [] \<or> hd q = CHR ''?'' \<Longrightarrow>
   takeWhile (\<lambda>c. c \<noteq> CHR ''?'') (p @ q) = p"
  by (induction p) (cases q; auto)+

lemma looks_like_json_file_spec: "looks_like_json_file u = spec_json_path u"
proof
  assume "looks_like_json_file u"
  then have e: "spec_ends_with_ci (takeWhile (\<lambda>c. c \<noteq> CHR ''?'') u) ''.json''"
    by (simp add: looks_like_json_file_takeWhile)
  let ?p = "takeWhile (\<lambda>c. c \<noteq> CHR ''?'') u"
  let ?q = "dropWhile (\<lambda>c. c \<noteq> CHR ''?'') u"
  have "u = ?p @ ?q" by simp
  moreover have "CHR ''?'' \<notin> set ?p" by (auto dest: set_takeWhileD)
  moreover have "?q = [] \<or> hd ?q = CHR ''?''"
    using hd_dropWhile [of "\<lambda>c. c \<noteq> CHR ''?''" u] by auto
  ultimately show "spec_json_path u"
    using e unfolding spec_json_path_def by blast
next
  assume "spec_json_path u"
  then obtain p q where "u = p @ q" "CHR ''?'' \<notin> set p" "q = [] \<or> hd q = CHR ''?''"
    "spec_ends_with_ci p ''.json''"
    unfolding spec_json_path_def by blast
  then show "looks_like_json_file u"
    by (simp add: looks_like_json_file_takeWhile takeWhile_path)
qed


lemma page_loop_fetches_candidate:
  assumes "URL_resolve E link baseUrl = Some u" "looks_like_json_file u"
  shows "\<exists>evs. trace (snd (page_loop E baseUrl (link # links) s)) =
           trace s @ Debug_CheckingIndirectLink u # HttpGet u # evs"
proof -
  let ?s1 = "emit (Debug_CheckingIndirectLink u) s"
  obtain r s2 where ax: "axios_get E default_validateStatus u ?s1 = (r, s2)"
    by (cases "axios_get E default_validateStatus u ?s1")
  have t2: "trace s2 = trace s @ [Debug_CheckingIndirectLink u, HttpGet u]"
    using axios_get_trace [of E default_validateStatus u ?s1] ax
    by (simp add: emit_def)
  show ?thesis
  proof (cases "\<exists>jr. r = Some jr \<and> page_accepts jr")
    case True
    then have "snd (page_loop E baseUrl (link # links) s) = s2"
      using assms ax by auto
    with t2 show ?thesis by simp
  next
    case False
    then have "page_loop E baseUrl (link # links) s = page_loop E baseUrl links s2"
      using assms ax by (cases r) auto
    with t2 page_loop_trace [of E baseUrl links s2] show ?thesis by auto
  qed
qed

lemma checkLinkForJson_chase:
  "http_get E url (world s) = (Some r, w') \<Longrightarrow> status r = 200 \<Longrightarrow> \<not> direct_json r \<Longrightarrow>
   indirect_html r \<Longrightarrow> data r = JString page \<Longrightarrow>
   checkLinkForJson E url s =
     extractJsonFromHtmlPage E page url
       \<lparr>world = w', trace = trace s @ [Debug_CheckingLink url, HttpGet url]\<rparr>"
  by (simp add: checkLinkForJson_def axios_get_state emit_def)

lemma export_example:
  "URL_resolve_model ''data/export.json?v=2'' ''https://example.com/landing'' =
     Some ''https://example.com/data/export.json?v=2'' \<and>
   looks_like_json_file ''https://example.com/data/export.json?v=2''"
  by code_simp

text \<open>
  C9. The page chaser resolves every link of the page against the URL of the page, the
  one the resolver fetched: a link whose resolution fails is passed over, and so is one
  whose resolution, cut at its query string, does not end in \<^verbatim>\<open>.json\<close> whatever the
  case. Every request of the chase is for the resolution of a link of the page that does
  end so, and a link that does is fetched when the loop comes to it. The reference
  \<^verbatim>\<open>data/export.json?v=2\<close> on the page \<^verbatim>\<open>https://example.com/landing\<close> resolves to
  \<^verbatim>\<open>https://example.com/data/export.json?v=2\<close>, which passes the test.
\<close>

theorem page_links_resolved_and_filtered:
  "(\<exists>evs. trace (snd (extractJsonFromHtmlPage E page baseUrl s)) = trace s @ evs \<and>
      (\<forall>u. HttpGet u \<in> set evs \<longrightarrow>
         (\<exists>link\<in>set (add_hrefs E page []).
            URL_resolve E link baseUrl = Some u \<and> spec_json_path u))) \<and>
   (URL_resolve E link baseUrl = None \<longrightarrow>
      page_loop E baseUrl (link # links) s = page_loop E baseUrl links s) \<and>
   (URL_resolve E link baseUrl = Some u \<and> \<not> spec_json_path u \<longrightarrow>
      page_loop E baseUrl (link # links) s = page_loop E baseUrl links s) \<and>
   (URL_resolve E link baseUrl = Some u \<and> spec_json_path u \<longrightarrow>
      (\<exists>evs. trace (snd (page_loop E baseUrl (link # links) s)) =
         trace s @ Debug_CheckingIndirectLink u # HttpGet u # evs)) \<and>
   (http_get E url (world s) = (Some r, w') \<and> status r = 200 \<and> \<not> direct_json r \<and>
    indirect_html r \<and> data r = JString page \<longrightarrow>
      checkLinkForJson E url s =
        extractJsonFromHtmlPage E page url
          \<lparr>world = w', trace = trace s @ [Debug_CheckingLink url, HttpGet url]\<rparr>) \<and>
   URL_resolve_model ''data/export.json?v=2'' ''https://example.com/landing'' =
     Some ''https://example.com/data/export.json?v=2'' \<and>
   spec_json_path ''https://example.com/data/export.json?v=2''"
proof (intro conjI impI)
  from page_loop_trace [of E baseUrl "add_hrefs E page []" s] obtain evs where
    evs: "trace (snd (page_loop E baseUrl (add_hrefs E page []) s)) = trace s @ evs"
      "\<forall>e\<in>set evs. page_event E baseUrl (add_hrefs E page []) e"
    by blast
  have "\<forall>u. HttpGet u \<in> set evs \<longrightarrow>
         (\<exists>link\<in>set (add_hrefs E page []).
            URL_resolve E link baseUrl = Some u \<and> spec_json_path u)"
  proof (intro allI impI)
    fix u
    assume "HttpGet u \<in> set evs"
    with evs(2) have "page_event E baseUrl (add_hrefs E page []) (HttpGet u)" by blast
    then show "\<exists>link\<in>set (add_hrefs E page []).
            URL_resolve E link baseUrl = Some u \<and> spec_json_path u"
      by (auto simp: page_event_def looks_like_json_file_spec)
  qed
  with evs(1) show "\<exists>evs. trace (snd (extractJsonFromHtmlPage E page baseUrl s)) = trace s @ evs \<and>
      (\<forall>u. HttpGet u \<in> set evs \<longrightarrow>
         (\<exists>link\<in>set (add_hrefs E page []).
            URL_resolve E link baseUrl = Some u \<and> spec_json_path u))"
    unfolding extractJsonFromHtmlPage_def by blast
next
  assume "URL_resolve E link baseUrl = None"
  then show "page_loop E baseUrl (link # links) s = page_loop E baseUrl links s"
    by simp
next
  assume "URL_resolve E link baseUrl = Some u \<and> \<not> spec_json_path u"
  then show "page_loop E baseUrl (link # links) s = page_loop E baseUrl links s"
    by (simp add: looks_like_json_file_spec)
next
  assume "URL_resolve E link baseUrl = Some u \<and> spec_json_path u"
  then have "URL_resolve E link baseUrl = Some u" "looks_like_json_file u"
    by (simp_all add: looks_like_json_file_spec)
  then show "\<exists>evs. trace (snd (page_loop E baseUrl (link # links) s)) =
         trace s @ Debug_CheckingIndirectLink u # HttpGet u # evs"
    by (rule page_loop_fetches_candidate)
next
  assume "http_get E url (world s) = (Some r, w') \<and> status r = 200 \<and> \<not> direct_json r \<and>
    indirect_html r \<and> data r = JString page"
  then show "checkLinkForJson E url s =
        extractJsonFromHtmlPage E page url
          \<lparr>world = w', trace = trace s @ [Debug_CheckingLink url, HttpGet url]\<rparr>"
    by (simp add: checkLinkForJson_chase)
next
  show "URL_resolve_model ''data/export.json?v=2'' ''https://example.com/landing'' =
     Some ''https://example.com/data/export.json?v=2''"
    using export_example by simp
next
  show "spec_json_path ''https://example.com/data/export.json?v=2''"
    using export_example by (simp add: looks_like_json_file_spec)
qed

theorem page_links_resolved_and_filtered_witness:
  "add_hrefs (sample_env mail_two_links) page_landing [] =
     [''http://'', ''about.html'', ''data/export.json?v=2''] \<and>
   URL_resolve_model ''http://'' ''https://example.com/landing'' = None \<and>
   URL_resolve_model ''about.html'' ''https://example.com/landing'' =
     Some ''https://example.com/about.html'' \<and>
   \<not> spec_json_path ''https://example.com/about.html'' \<and>
   page_loop (sample_env mail_two_links) ''https://example.com/landing''
     [''http://'', ''about.html'', ''data/export.json?v=2''] s0 =
   page_loop (sample_env mail_two_links) ''https://example.com/landing''
     [''data/export.json?v=2''] s0 \<and>
   (\<exists>evs. trace (snd (page_loop (sample_env mail_two_links) ''https://example.com/landing''
                        [''data/export.json?v=2''] s0)) =
      trace s0 @ Debug_CheckingIndirectLink ''https://example.com/data/export.json?v=2'' #
                 HttpGet ''https://example.com/data/export.json?v=2'' # evs) \<and>
   checkLinkForJson (sample_env mail_two_links) ''https://example.com/landing'' s0 =
     (json_ok,
      \<lparr>world = (),
       trace = [Debug_CheckingLink ''https://example.com/landing'',
                HttpGet ''https://example.com/landing'',
                Debug_CheckingIndirectLink ''https://example.com/data/export.json?v=2'',
                HttpGet ''https://example.com/data/export.json?v=2'']\<rparr>) \<and>
   (\<exists>link\<in>set (add_hrefs (sample_env mail_two_links) page_landing []).
      URL_resolve (sample_env mail_two_links) link ''https://example.com/landing'' =
        Some ''https://example.com/data/export.json?v=2'' \<and>
      spec_json_path ''https://example.com/data/export.json?v=2'')"
proof -
  let ?E = "sample_env mail_two_links"
  let ?b = "''https://example.com/landing''"
  let ?x = "''https://example.com/data/export.json?v=2''"
  let ?r = "\<lparr>status = 200, content_type = Some ''text/html'', data = JString page_landing\<rparr>"
  let ?s1 = "\<lparr>world = (), trace = [Debug_CheckingLink ?b, HttpGet ?b]\<rparr>"
  have hrefs: "add_hrefs ?E page_landing [] =
      [''http://'', ''about.html'', ''data/export.json?v=2'']"
    by code_simp
  have r1: "URL_resolve ?E ''http://'' ?b = None" by code_simp
  have r2: "URL_resolve ?E ''about.html'' ?b = Some ''https://example.com/about.html''"
    by code_simp
  have r3: "URL_resolve ?E ''data/export.json?v=2'' ?b = Some ?x" by code_simp
  have m: "URL_resolve ?E = URL_resolve_model" by (simp add: sample_env_def)
  have n2: "\<not> looks_like_json_file ''https://example.com/about.html''" by code_simp
  have l3: "looks_like_json_file ?x" by code_simp
  have g: "http_get ?E ?b (world s0) = (Some ?r, ())"
    by (simp add: sample_env_def sample_http_get_def)
  have c: "status ?r = 200 \<and> \<not> direct_json ?r \<and> indirect_html ?r"
    by code_simp
  have run: "extractJsonFromHtmlPage ?E page_landing ?b ?s1 =
     (json_ok, \<lparr>world = (), trace = [Debug_CheckingLink ?b, HttpGet ?b,
                Debug_CheckingIndirectLink ?x, HttpGet ?x]\<rparr>)"
    by code_simp
  have run0: "trace (snd (extractJsonFromHtmlPage ?E page_landing ?b s0)) =
      [Debug_CheckingIndirectLink ?x, HttpGet ?x]"
    by code_simp
  note skip1 = page_links_resolved_and_filtered
      [where E = ?E and link = "''http://''" and baseUrl = ?b and s = s0
         and links = "[''about.html'', ''data/export.json?v=2'']"]
  note skip2 = page_links_resolved_and_filtered
      [where E = ?E and link = "''about.html''" and baseUrl = ?b and s = s0
         and u = "''https://example.com/about.html''" and links = "[''data/export.json?v=2'']"]
  note fetch = page_links_resolved_and_filtered
      [where E = ?E and link = "''data/export.json?v=2''" and baseUrl = ?b and s = s0
         and u = ?x and links = "[]" and url = ?b and r = ?r and w' = "()"
         and page = page_landing]
  have e1: "page_loop ?E ?b [''http://'', ''about.html'', ''data/export.json?v=2''] s0 =
      page_loop ?E ?b [''about.html'', ''data/export.json?v=2''] s0"
    using skip1 r1 by blast
  have e2: "page_loop ?E ?b [''about.html'', ''data/export.json?v=2''] s0 =
      page_loop ?E ?b [''data/export.json?v=2''] s0"
    using skip2 r2 n2 by (simp add: looks_like_json_file_spec)
  have e3: "\<exists>evs. trace (snd (page_loop ?E ?b [''data/export.json?v=2''] s0)) =
      trace s0 @ Debug_CheckingIndirectLink ?x # HttpGet ?x # evs"
    using fetch r3 l3 by (simp add: looks_like_json_file_spec)
  have e4: "checkLinkForJson ?E ?b s0 = extractJsonFromHtmlPage ?E page_landing ?b ?s1"
    using fetch g c by (simp add: s0_def)
  from fetch obtain evs where evs:
    "trace (snd (extractJsonFromHtmlPage ?E page_landing ?b s0)) = trace s0 @ evs"
    "\<forall>u. HttpGet u \<in> set evs \<longrightarrow>
       (\<exists>link\<in>set (add_hrefs ?E page_landing []).
          URL_resolve ?E link ?b = Some u \<and> spec_json_path u)"
    by blast
  from evs(1) run0 have "evs = [Debug_CheckingIndirectLink ?x, HttpGet ?x]"
    by (simp add: s0_def)
  with evs(2) have e5: "\<exists>link\<in>set (add_hrefs ?E page_landing []).
      URL_resolve ?E link ?b = Some ?x \<and> spec_json_path ?x"
    by simp
  from hrefs r1 r2 n2 e1 e2 e3 e4 run e5 m show ?thesis
    by (simp add: looks_like_json_file_spec)
qed

text \<open>
  C10. A response with status 200, the body \<^verbatim>\<open>null\<close> and a content type that does not
  contain \<^verbatim>\<open>application/json\<close> passes the test of the page chaser and fails the
  "direct JSON" test of the link resolver. The chaser stops at such a link and returns
  \<^verbatim>\<open>null\<close>, whatever links follow on the page; the resolver returns \<^verbatim>\<open>null\<close> as "no
  match".
\<close>

theorem null_body_accepted_by_chaser_only:
  "status r = 200 \<Longrightarrow> data r = JNull \<Longrightarrow>
   (\<forall>ct. content_type r = Some ct \<longrightarrow> \<not> sublist ''application/json'' ct) \<Longrightarrow>
   page_accepts r \<and> \<not> direct_json r \<and>
   (URL_resolve E link baseUrl = Some u \<and> looks_like_json_file u \<and>
    http_get E u (world s) = (Some r, w') \<longrightarrow>
      page_loop E baseUrl (link # links) s =
        (JNull, \<lparr>world = w',
                 trace = trace s @ [Debug_CheckingIndirectLink u, HttpGet u]\<rparr>)) \<and>
   (http_get E url (world s) = (Some r, w') \<longrightarrow>
      checkLinkForJson E url s =
        (JNull, \<lparr>world = w', trace = trace s @ [Debug_CheckingLink url, HttpGet url]\<rparr>))"
proof (intro conjI impI)
  assume h: "status r = 200" "data r = JNull"
    "\<forall>ct. content_type r = Some ct \<longrightarrow> \<not> sublist ''application/json'' ct"
  show pa: "page_accepts r"
    using h by (simp add: page_accepts_def)
  show nd: "\<not> direct_json r"
    using h by (cases "content_type r") (simp_all add: direct_json_def includes_str_sublist)
  have ni: "\<not> indirect_html r"
    using h by (simp add: indirect_html_def)
  {
    assume "URL_resolve E link baseUrl = Some u \<and> looks_like_json_file u \<and>
      http_get E u (world s) = (Some r, w')"
    then show "page_loop E baseUrl (link # links) s =
        (JNull, \<lparr>world = w',
                 trace = trace s @ [Debug_CheckingIndirectLink u, HttpGet u]\<rparr>)"
      using pa h by (simp add: axios_get_state emit_def default_validateStatus_def)
  }
  {
    assume "http_get E url (world s) = (Some r, w')"
    then show "checkLinkForJson E url s =
        (JNull, \<lparr>world = w', trace = trace s @ [Debug_CheckingLink url, HttpGet url]\<rparr>)"
      using nd ni h by (simp add: checkLinkForJson_def axios_get_state emit_def)
  }
qed

theorem null_body_accepted_by_chaser_only_witness:
  "sample_http_get ''https://host/null.json'' =
     Some \<lparr>status = 200, content_type = Some ''text/plain'', data = JNull\<rparr> \<and>
   page_accepts \<lparr>status = 200, content_type = Some ''text/plain'', data = JNull\<rparr> \<and>
   \<not> direct_json \<lparr>status = 200, content_type = Some ''text/plain'', data = JNull\<rparr> \<and>
   page_loop (sample_env mail_two_links) ''https://host/index.html''
     [''/null.json'', ''/assets/out.json''] s0 =
     (JNull, \<lparr>world = (), trace = [Debug_CheckingIndirectLink ''https://host/null.json'',
                                    HttpGet ''https://host/null.json'']\<rparr>) \<and>
   page_loop (sample_env mail_two_links) ''https://host/index.html''
     [''/assets/out.json''] s0 =
     (json_ok, \<lparr>world = (), trace = [Debug_CheckingIndirectLink ''https://host/assets/out.json'',
                                      HttpGet ''https://host/assets/out.json'']\<rparr>) \<and>
   checkLinkForJson (sample_env mail_two_links) ''https://host/null.json'' s0 =
     (JNull, \<lparr>world = (), trace = [Debug_CheckingLink ''https://host/null.json'',
                                    HttpGet ''https://host/null.json'']\<rparr>)"
proof -
  let ?E = "sample_env mail_two_links"
  let ?r = "\<lparr>status = 200, content_type = Some ''text/plain'', data = JNull\<rparr>"
  let ?n = "''https://host/null.json''"
  have g: "sample_http_get ?n = Some ?r"
    by (simp add: sample_http_get_def)
  then have h: "http_get ?E ?n (world s0) = (Some ?r, ())"
    by (simp add: sample_env_def)
  have ct: "\<forall>ct. content_type ?r = Some ct \<longrightarrow> \<not> sublist ''application/json'' ct"
  proof -
    have "\<not> includes_str ''text/plain'' ''application/json''" by code_simp
    then show ?thesis by (simp add: includes_str_sublist)
  qed
  have res: "URL_resolve ?E ''/null.json'' ''https://host/index.html'' = Some ?n"
    by code_simp
  have l: "looks_like_json_file ?n" by code_simp
  have other: "page_loop ?E ''https://host/index.html'' [''/assets/out.json''] s0 =
     (json_ok, \<lparr>world = (), trace = [Debug_CheckingIndirectLink ''https://host/assets/out.json'',
                                      HttpGet ''https://host/assets/out.json'']\<rparr>)"
    by code_simp
  note inst = null_body_accepted_by_chaser_only
      [where r = ?r and E = ?E and link = "''/null.json''"
         and baseUrl = "''https://host/index.html''" and u = ?n and s = s0 and w' = "()"
         and links = "[''/assets/out.json'']" and url = ?n]
  from inst ct g h res l other show ?thesis
    by (simp add: s0_def)
qed

section \<open>The request as a whole\<close>

lemma attachments_loop_state:
  "\<exists>evs. snd (attachments_loop E as s) = s\<lparr>trace := trace s @ evs\<rparr> \<and>
         (\<forall>e\<in>set evs. \<exists>f. e = Warn_FailedToParse f)"
proof (induction as arbitrary: s)
  case Nil
  then show ?case by (auto intro!: exI [of _ "[]"])
next
  case (Cons a as)
  have here: "\<exists>evs. s = s\<lparr>trace := trace s @ evs\<rparr> \<and>
         (\<forall>e\<in>set evs. \<exists>f. e = Warn_FailedToParse f)"
    by (auto intro!: exI [of _ "[]"])
  show ?case
  proof (cases "isJsonAttachment a \<and> JSON_parse E (toString_utf8 E (content a)) = None")
    case True
    let ?s1 = "emit (Warn_FailedToParse (filename a)) s"
    from Cons [of ?s1] obtain evs where
      evs: "snd (attachments_loop E as ?s1) = ?s1\<lparr>trace := trace ?s1 @ evs\<rparr>"
        "\<forall>e\<in>set evs. \<exists>f. e = Warn_FailedToParse f"
      by blast
    from True have "attachments_loop E (a # as) s = attachments_loop E as ?s1" by simp
    with evs show ?thesis
      by (auto simp: emit_def intro!: exI [of _ "Warn_FailedToParse (filename a) # evs"])
  next
    case False
    with Cons [of s] here show ?thesis
      by (cases "isJsonAttachment a") (auto split: option.splits)
  qed
qed

lemma extractJsonFromAttachments_state:
  "\<exists>evs. snd (extractJsonFromAttachments E parsed s) = s\<lparr>trace := trace s @ evs\<rparr> \<and>
         (\<forall>e\<in>set evs. \<exists>f. e = Warn_FailedToParse f)"
  using attachments_loop_state [of E "attachments parsed" s]
  by (auto simp: extractJsonFromAttachments_def)

lemma checkLinkForJson_direct:
  "http_get E l (world t) = (Some resp, w') \<Longrightarrow> status resp = 200 \<Longrightarrow> direct_json resp \<Longrightarrow>
   checkLinkForJson E l t =
     (data resp, \<lparr>world = w', trace = trace t @ [Debug_CheckingLink l, HttpGet l]\<rparr>)"
  by (simp add: checkLinkForJson_def axios_get_state emit_def)

lemma links_loop_append:
  "links_loop E pre t = (rp, tp) \<Longrightarrow> \<not> truthy rp \<Longrightarrow>
   links_loop E (pre @ rest) t = links_loop E rest tp"
proof (induction pre arbitrary: t)
  case Nil
  then show ?case by simp
next
  case (Cons x pre)
  show ?case
  proof (cases "startsWith x ''mailto:'' \<or> startsWith x ''#''")
    case True
    with Cons show ?thesis by simp
  next
    case False
    obtain rx tx where ck: "checkLinkForJson E x t = (rx, tx)"
      by (cases "checkLinkForJson E x t")
    show ?thesis
    proof (cases "truthy rx")
      case True
      with False ck Cons.prems show ?thesis by simp
    next
      case nt: False
      with False ck Cons.prems have "links_loop E pre tx = (rp, tp)" by simp
      from Cons.IH [OF this Cons.prems(2)] False ck nt show ?thesis by simp
    qed
  qed
qed

text \<open>
  C2, as the code has it. A request returns one value or an error. The attachments are
  scanned first: when the scan returns a truthy value, that value is the result, the
  world is untouched and nothing is logged past the warnings of the scan, so no link is
  harvested, resolved or fetched. Otherwise the outcome of the request is that of the
  loop over the harvested links, all of them, in the order of the harvest: the links
  before the first one that yields are passed over or yield nothing truthy, the result
  of that link is the result of the request, and the links after it are left alone;
  with no link harvested, or none that yields, the outcome is \<open>NotFoundException\<close>.
  The loop tries one link at a time, each as a direct JSON resource first and, when it is
  an HTML page instead, by the chase of that page, before the next link is looked at.
\<close>

theorem strategies_in_order:
  assumes "getEmailContent E source (emit (Log_ProcessingEmail source) s) = (Inr buf, s1)"
    and "simpleParser E buf = Some parsed"
    and "extractJsonFromAttachments E parsed (emit Log_CheckingAttachments s1) = (aj, s2)"
    and "links_loop E (harvest_links E (html parsed) (text_body parsed))
           (emit Log_CheckingLinks s2) = (lj, s3)"
  shows
    "(truthy aj \<longrightarrow>
        processEmail E source s = (Inr aj, emit Log_JsonFoundInAttachments s2) \<and>
        world s2 = world s1 \<and>
        (\<exists>evs. trace s2 = trace s1 @ Log_CheckingAttachments # evs \<and>
               (\<forall>e\<in>set evs. \<exists>f. e = Warn_FailedToParse f))) \<and>
     (\<not> truthy aj \<and> truthy lj \<longrightarrow>
        processEmail E source s = (Inr lj, emit Log_JsonFoundViaLinks s3)) \<and>
     (\<not> truthy aj \<and> \<not> truthy lj \<longrightarrow>
        processEmail E source s = (Inl NotFoundException, s3)) \<and>
     (\<not> truthy aj \<and>
      harvest_links E (html parsed) (text_body parsed) = pre @ l # post \<and>
      links_loop E pre (emit Log_CheckingLinks s2) = (rp, t) \<and> \<not> truthy rp \<and>
      \<not> skipped_link l \<and> checkLinkForJson E l t = (r, t') \<and> truthy r \<longrightarrow>
        processEmail E source s = (Inr r, emit Log_JsonFoundViaLinks t')) \<and>
     (\<not> truthy aj \<and> harvest_links E (html parsed) (text_body parsed) = [] \<longrightarrow>
        processEmail E source s = (Inl NotFoundException, emit Log_CheckingLinks s2)) \<and>
     links_loop E [] t = (JNull, t) \<and>
     (skipped_link l \<longrightarrow> links_loop E (l # rest) t = links_loop E rest t) \<and>
     (\<not> skipped_link l \<and> checkLinkForJson E l t = (r, t') \<and> truthy r \<longrightarrow>
        links_loop E (l # rest) t = (r, t')) \<and>
     (\<not> skipped_link l \<and> checkLinkForJson E l t = (r, t') \<and> \<not> truthy r \<longrightarrow>
        links_loop E (l # rest) t = links_loop E rest t') \<and>
     (links_loop E pre t = (rp, tp) \<and> \<not> truthy rp \<longrightarrow>
        links_loop E (pre @ rest) t = links_loop E rest tp) \<and>
     (http_get E l (world t) = (Some resp, w') \<and> status resp = 200 \<and> direct_json resp \<longrightarrow>
        checkLinkForJson E l t =
          (data resp, \<lparr>world = w', trace = trace t @ [Debug_CheckingLink l, HttpGet l]\<rparr>)) \<and>
     (http_get E l (world t) = (Some resp, w') \<and> status resp = 200 \<and> \<not> direct_json resp \<and>
      indirect_html resp \<and> data resp = JString page \<longrightarrow>
        checkLinkForJson E l t =
          extractJsonFromHtmlPage E page l
            \<lparr>world = w', trace = trace t @ [Debug_CheckingLink l, HttpGet l]\<rparr>)"
proof (intro conjI impI)
  assume t: "truthy aj"
  with assms show "processEmail E source s = (Inr aj, emit Log_JsonFoundInAttachments s2)"
    by (simp add: processEmail_def)
  from extractJsonFromAttachments_state [of E parsed "emit Log_CheckingAttachments s1"]
    assms(3)
  obtain evs where evs: "s2 = (emit Log_CheckingAttachments s1)
        \<lparr>trace := trace (emit Log_CheckingAttachments s1) @ evs\<rparr>"
      "\<forall>e\<in>set evs. \<exists>f. e = Warn_FailedToParse f"
    by auto
  from evs(1) show "world s2 = world s1" by (simp add: emit_def)
  from evs show "\<exists>evs. trace s2 = trace s1 @ Log_CheckingAttachments # evs \<and>
               (\<forall>e\<in>set evs. \<exists>f. e = Warn_FailedToParse f)"
    by (auto simp: emit_def)
next
  assume "\<not> truthy aj \<and> truthy lj"
  with assms show "processEmail E source s = (Inr lj, emit Log_JsonFoundViaLinks s3)"
    by (simp add: processEmail_def extractJsonFromLinks_def)
next
  assume "\<not> truthy aj \<and> \<not> truthy lj"
  with assms show "processEmail E source s = (Inl NotFoundException, s3)"
    by (simp add: processEmail_def extractJsonFromLinks_def)
next
  assume h: "\<not> truthy aj \<and>
      harvest_links E (html parsed) (text_body parsed) = pre @ l # post \<and>
      links_loop E pre (emit Log_CheckingLinks s2) = (rp, t) \<and> \<not> truthy rp \<and>
      \<not> skipped_link l \<and> checkLinkForJson E l t = (r, t') \<and> truthy r"
  then have "links_loop E (pre @ l # post) (emit Log_CheckingLinks s2) =
      links_loop E (l # post) t"
    by (simp add: links_loop_append)
  also have "\<dots> = (r, t')"
    using h by (simp add: skipped_link_def)
  finally have "extractJsonFromLinks E (html parsed) (text_body parsed)
      (emit Log_CheckingLinks s2) = (r, t')"
    using h by (simp add: extractJsonFromLinks_def)
  with h assms(1-3) show "processEmail E source s = (Inr r, emit Log_JsonFoundViaLinks t')"
    by (simp add: processEmail_def)
next
  assume "\<not> truthy aj \<and> harvest_links E (html parsed) (text_body parsed) = []"
  with assms(1-3)
  show "processEmail E source s = (Inl NotFoundException, emit Log_CheckingLinks s2)"
    by (simp add: processEmail_def extractJsonFromLinks_def)
next
  show "links_loop E [] t = (JNull, t)" by simp
next
  assume "skipped_link l"
  then show "links_loop E (l # rest) t = links_loop E rest t"
    by (simp add: skipped_link_def)
next
  assume "\<not> skipped_link l \<and> checkLinkForJson E l t = (r, t') \<and> truthy r"
  then show "links_loop E (l # rest) t = (r, t')"
    by (simp add: skipped_link_def)
next
  assume "\<not> skipped_link l \<and> checkLinkForJson E l t = (r, t') \<and> \<not> truthy r"
  then show "links_loop E (l # rest) t = links_loop E rest t'"
    by (simp add: skipped_link_def)
next
  assume "links_loop E pre t = (rp, tp) \<and> \<not> truthy rp"
  then show "links_loop E (pre @ rest) t = links_loop E rest tp"
    by (simp add: links_loop_append)
next
  assume "http_get E l (world t) = (Some resp, w') \<and> status resp = 200 \<and> direct_json resp"
  then show "checkLinkForJson E l t =
          (data resp, \<lparr>world = w', trace = trace t @ [Debug_CheckingLink l, HttpGet l]\<rparr>)"
    by (simp add: checkLinkForJson_direct)
next
  assume "http_get E l (world t) = (Some resp, w') \<and> status resp = 200 \<and> \<not> direct_json resp \<and>
      indirect_html resp \<and> data resp = JString page"
  then show "checkLinkForJson E l t =
          extractJsonFromHtmlPage E page l
            \<lparr>world = w', trace = trace t @ [Debug_CheckingLink l, HttpGet l]\<rparr>"
    by (simp add: checkLinkForJson_chase)
qed

text \<open>
  C2 as the specification states it fails. The attachment of this message parses to the
  JSON value 0, and its second body link is a direct JSON resource; the result is
  neither: it comes from the page chase of the first body link, which runs before the
  second link is looked at.
\<close>

theorem strategies_in_order_counterexample:
  "isJsonAttachment (attachments mail_zero_and_two_links ! 0) \<and>
   parsed_content (sample_env mail_zero_and_two_links)
     (attachments mail_zero_and_two_links ! 0) = Some (JNumber (Num 0)) \<and>
   harvest_links (sample_env mail_zero_and_two_links) (html mail_zero_and_two_links)
     (text_body mail_zero_and_two_links) =
     [''https://host/page.html'', ''https://host/file.json''] \<and>
   checkLinkForJson (sample_env mail_zero_and_two_links) ''https://host/file.json'' s0 =
     (json_123, \<lparr>world = (), trace = [Debug_CheckingLink ''https://host/file.json'',
                                       HttpGet ''https://host/file.json'']\<rparr>) \<and>
   processEmail (sample_env mail_zero_and_two_links) ''mail.eml'' s0 =
     (Inr json_ok,
      \<lparr>world = (),
       trace = [Log_ProcessingEmail ''mail.eml'', Log_CheckingAttachments, Log_CheckingLinks,
                Debug_CheckingLink ''https://host/page.html'',
                HttpGet ''https://host/page.html'',
                Debug_CheckingIndirectLink ''https://host/assets/out.json'',
                HttpGet ''https://host/assets/out.json'', Log_JsonFoundViaLinks]\<rparr>) \<and>
   json_ok \<noteq> JNumber (Num 0) \<and> json_ok \<noteq> json_123"
  by code_simp


lemma sample_read:
  "getEmailContent (sample_env mail) ''mail.eml'' (emit (Log_ProcessingEmail ''mail.eml'') s0) =
     (Inr ''(the bytes of mail.eml)'', s_read)"
proof -
  have "\<not> startsWith ''mail.eml'' ''http://''" "\<not> startsWith ''mail.eml'' ''https://''"
    by (simp_all add: startsWith_def)
  then show ?thesis
    by (simp add: getEmailContent_def sample_env_def emit_def s0_def s_read_def)
qed

lemma sample_decode: "simpleParser (sample_env mail) buffer = Some mail"
  by (simp add: sample_env_def)

theorem strategies_in_order_witness:
  "processEmail (sample_env mail_good_attachment) ''mail.eml'' s0 =
     (Inr (JObject []),
      \<lparr>world = (), trace = [Log_ProcessingEmail ''mail.eml'', Log_CheckingAttachments,
                            Log_JsonFoundInAttachments]\<rparr>) \<and>
   processEmail (sample_env mail_two_links) ''mail.eml'' s0 =
     (Inr json_ok,
      \<lparr>world = (),
       trace = [Log_ProcessingEmail ''mail.eml'', Log_CheckingAttachments, Log_CheckingLinks,
                Debug_CheckingLink ''https://host/page.html'',
                HttpGet ''https://host/page.html'',
                Debug_CheckingIndirectLink ''https://host/assets/out.json'',
                HttpGet ''https://host/assets/out.json'', Log_JsonFoundViaLinks]\<rparr>) \<and>
   harvest_links (sample_env mail_only_broken) (html mail_only_broken)
     (text_body mail_only_broken) = [] \<and>
   processEmail (sample_env mail_only_broken) ''mail.eml'' s0 =
     (Inl NotFoundException,
      \<lparr>world = (), trace = [Log_ProcessingEmail ''mail.eml'', Log_CheckingAttachments,
                            Warn_FailedToParse (Some ''broken.json''), Log_CheckingLinks]\<rparr>) \<and>
   harvest_links (sample_env mail_late_link) (html mail_late_link)
     (text_body mail_late_link) =
     [''mailto:team@host'', ''#top'', ''https://down.example/x'', ''https://host/missing''] @
     ''https://host/file.json'' # [''https://host/page.html''] \<and>
   processEmail (sample_env mail_late_link) ''mail.eml'' s0 =
     (Inr json_123,
      \<lparr>world = (),
       trace = [Log_ProcessingEmail ''mail.eml'', Log_CheckingAttachments, Log_CheckingLinks,
                Debug_CheckingLink ''https://down.example/x'',
                HttpGet ''https://down.example/x'',
                Debug_FailedToCheckLink ''https://down.example/x'',
                Debug_CheckingLink ''https://host/missing'',
                HttpGet ''https://host/missing'',
                Debug_CheckingLink ''https://host/file.json'',
                HttpGet ''https://host/file.json'', Log_JsonFoundViaLinks]\<rparr>) \<and>
   links_loop (sample_env mail_two_links)
     [''#top'', ''https://down.example/x'', ''https://host/file.json'', ''https://host/page.html'']
     s0 =
     (json_123,
      \<lparr>world = (),
       trace = [Debug_CheckingLink ''https://down.example/x'',
                HttpGet ''https://down.example/x'',
                Debug_FailedToCheckLink ''https://down.example/x'',
                Debug_CheckingLink ''https://host/file.json'',
                HttpGet ''https://host/file.json'']\<rparr>) \<and>
   links_loop (sample_env mail_two_links)
     ([''#top'', ''https://down.example/x''] @ [''https://host/page.html'']) s0 =
   links_loop (sample_env mail_two_links) [''https://host/page.html'']
     \<lparr>world = (),
      trace = [Debug_CheckingLink ''https://down.example/x'',
               HttpGet ''https://down.example/x'',
               Debug_FailedToCheckLink ''https://down.example/x'']\<rparr> \<and>
   checkLinkForJson (sample_env mail_two_links) ''https://host/page.html'' s0 =
     extractJsonFromHtmlPage (sample_env mail_two_links) page_out ''https://host/page.html''
       \<lparr>world = (), trace = [Debug_CheckingLink ''https://host/page.html'',
                             HttpGet ''https://host/page.html'']\<rparr>"
proof -
  let ?G = "sample_env mail_good_attachment"
  let ?T = "sample_env mail_two_links"
  let ?B = "sample_env mail_only_broken"
  let ?L = "sample_env mail_late_link"
  let ?d = "''https://down.example/x''"
  let ?m = "''https://host/missing''"
  let ?f = "''https://host/file.json''"
  let ?p = "''https://host/page.html''"
  let ?a0 = "\<lparr>world = (), trace = [Log_ProcessingEmail ''mail.eml'',
               Log_CheckingAttachments]\<rparr>"
  \<comment> \<open>a truthy attachment\<close>
  have g3: "extractJsonFromAttachments ?G mail_good_attachment
      (emit Log_CheckingAttachments s_read) = (JObject [], ?a0)"
    by code_simp
  obtain glj gs3 where g4: "links_loop ?G (harvest_links ?G (html mail_good_attachment)
      (text_body mail_good_attachment)) (emit Log_CheckingLinks ?a0) = (glj, gs3)"
    by (meson surj_pair)
  have good: "processEmail ?G ''mail.eml'' s0 =
     (Inr (JObject []),
      \<lparr>world = (), trace = [Log_ProcessingEmail ''mail.eml'', Log_CheckingAttachments,
                            Log_JsonFoundInAttachments]\<rparr>)"
    using strategies_in_order [OF sample_read sample_decode g3 g4]
    by (simp add: emit_def)
  \<comment> \<open>no attachment, a link that yields\<close>
  have t3: "extractJsonFromAttachments ?T mail_two_links
      (emit Log_CheckingAttachments s_read) = (JNull, ?a0)"
    by code_simp
  have t4: "links_loop ?T (harvest_links ?T (html mail_two_links) (text_body mail_two_links))
      (emit Log_CheckingLinks ?a0) =
      (json_ok,
       \<lparr>world = (),
        trace = [Log_ProcessingEmail ''mail.eml'', Log_CheckingAttachments, Log_CheckingLinks,
                Debug_CheckingLink ?p, HttpGet ?p,
                Debug_CheckingIndirectLink ''https://host/assets/out.json'',
                HttpGet ''https://host/assets/out.json'']\<rparr>)"
    by code_simp
  have two: "processEmail ?T ''mail.eml'' s0 =
     (Inr json_ok,
      \<lparr>world = (),
       trace = [Log_ProcessingEmail ''mail.eml'', Log_CheckingAttachments, Log_CheckingLinks,
                Debug_CheckingLink ?p, HttpGet ?p,
                Debug_CheckingIndirectLink ''https://host/assets/out.json'',
                HttpGet ''https://host/assets/out.json'', Log_JsonFoundViaLinks]\<rparr>)"
    using strategies_in_order [OF sample_read sample_decode t3 t4]
    by (simp add: emit_def json_ok_def)
  \<comment> \<open>nothing harvested\<close>
  let ?b0 = "\<lparr>world = (), trace = [Log_ProcessingEmail ''mail.eml'',
         Log_CheckingAttachments, Warn_FailedToParse (Some ''broken.json'')]\<rparr>"
  have b3: "extractJsonFromAttachments ?B mail_only_broken
      (emit Log_CheckingAttachments s_read) = (JNull, ?b0)"
    by code_simp
  have bh: "harvest_links ?B (html mail_only_broken) (text_body mail_only_broken) = []"
    by code_simp
  obtain blj bs3 where b4: "links_loop ?B (harvest_links ?B (html mail_only_broken)
      (text_body mail_only_broken)) (emit Log_CheckingLinks ?b0) = (blj, bs3)"
    by (meson surj_pair)
  have broken: "processEmail ?B ''mail.eml'' s0 =
     (Inl NotFoundException,
      \<lparr>world = (), trace = [Log_ProcessingEmail ''mail.eml'', Log_CheckingAttachments,
                            Warn_FailedToParse (Some ''broken.json''), Log_CheckingLinks]\<rparr>)"
    using strategies_in_order [OF sample_read sample_decode b3 b4] bh
    by (simp add: emit_def)
  \<comment> \<open>the fifth harvested link is the first that yields\<close>
  let ?l0 = "\<lparr>world = (), trace = [Log_ProcessingEmail ''mail.eml'', Log_CheckingAttachments,
               Log_CheckingLinks, Debug_CheckingLink ?d, HttpGet ?d,
               Debug_FailedToCheckLink ?d, Debug_CheckingLink ?m, HttpGet ?m]\<rparr>"
  let ?l1 = "\<lparr>world = (), trace = [Log_ProcessingEmail ''mail.eml'', Log_CheckingAttachments,
               Log_CheckingLinks, Debug_CheckingLink ?d, HttpGet ?d,
               Debug_FailedToCheckLink ?d, Debug_CheckingLink ?m, HttpGet ?m,
               Debug_CheckingLink ?f, HttpGet ?f]\<rparr>"
  have l3: "extractJsonFromAttachments ?L mail_late_link
      (emit Log_CheckingAttachments s_read) = (JNull, ?a0)"
    by code_simp
  have lh: "harvest_links ?L (html mail_late_link) (text_body mail_late_link) =
      [''mailto:team@host'', ''#top'', ?d, ?m] @ ?f # [?p]"
    by code_simp
  obtain llj ls3 where l4: "links_loop ?L (harvest_links ?L (html mail_late_link)
      (text_body mail_late_link)) (emit Log_CheckingLinks ?a0) = (llj, ls3)"
    by (meson surj_pair)
  have lpre: "links_loop ?L [''mailto:team@host'', ''#top'', ?d, ?m]
      (emit Log_CheckingLinks ?a0) = (JNull, ?l0)"
    by code_simp
  have lck: "checkLinkForJson ?L ?f ?l0 = (json_123, ?l1)"
    by code_simp
  have tj: "truthy json_123" by (simp add: json_123_def)
  have sk: "skipped_link ''#top''" "\<not> skipped_link ?d" "\<not> skipped_link ?f"
    by code_simp+
  have nt: "\<not> truthy JNull" by simp
  note at_late = strategies_in_order [OF sample_read sample_decode l3 l4,
      where pre = "[''mailto:team@host'', ''#top'', ?d, ?m]" and l = ?f and post = "[?p]"
        and rp = JNull and t = ?l0 and r = json_123 and t' = ?l1]
  have "processEmail ?L ''mail.eml'' s0 = (Inr json_123, emit Log_JsonFoundViaLinks ?l1)"
    by (rule at_late [THEN conjunct2, THEN conjunct2, THEN conjunct2, THEN conjunct1,
          THEN mp])
       (intro conjI nt lh lpre sk(3) lck tj)
  then have late: "processEmail ?L ''mail.eml'' s0 =
     (Inr json_123,
      \<lparr>world = (),
       trace = [Log_ProcessingEmail ''mail.eml'', Log_CheckingAttachments, Log_CheckingLinks,
                Debug_CheckingLink ?d, HttpGet ?d, Debug_FailedToCheckLink ?d,
                Debug_CheckingLink ?m, HttpGet ?m,
                Debug_CheckingLink ?f, HttpGet ?f, Log_JsonFoundViaLinks]\<rparr>)"
    by (simp add: emit_def)
  \<comment> \<open>the loop over the links\<close>
  let ?s1 = "\<lparr>world = (), trace = [Debug_CheckingLink ?d, HttpGet ?d,
               Debug_FailedToCheckLink ?d]\<rparr>"
  let ?s2 = "\<lparr>world = (), trace = [Debug_CheckingLink ?d, HttpGet ?d,
               Debug_FailedToCheckLink ?d, Debug_CheckingLink ?f, HttpGet ?f]\<rparr>"
  have cd: "checkLinkForJson ?T ?d s0 = (JNull, ?s1)" by code_simp
  have gf: "http_get ?T ?f (world ?s1) =
      (Some \<lparr>status = 200, content_type = Some ''application/json'', data = json_123\<rparr>, ())"
    by (simp add: sample_env_def sample_http_get_def)
  have df: "direct_json \<lparr>status = 200, content_type = Some ''application/json'',
      data = json_123\<rparr>"
    by code_simp
  have gp: "http_get ?T ?p (world s0) =
      (Some \<lparr>status = 200, content_type = Some ''text/html; charset=utf-8'',
             data = JString page_out\<rparr>, ())"
    by (simp add: sample_env_def sample_http_get_def)
  have dp: "\<not> direct_json \<lparr>status = 200, content_type = Some ''text/html; charset=utf-8'',
             data = JString page_out\<rparr> \<and>
      indirect_html \<lparr>status = 200, content_type = Some ''text/html; charset=utf-8'',
             data = JString page_out\<rparr>"
    by code_simp
  note at_top = strategies_in_order [OF sample_read sample_decode t3 t4,
      where l = "''#top''" and t = s0
        and rest = "[?d, ?f, ?p]"]
  note at_down = strategies_in_order [OF sample_read sample_decode t3 t4,
      where l = ?d and t = s0 and r = JNull and t' = ?s1 and rest = "[?f, ?p]"]
  have cf: "checkLinkForJson ?T ?f ?s1 = (json_123, ?s2)"
    using strategies_in_order [OF sample_read sample_decode t3 t4,
      where l = ?f and t = ?s1 and w' = "()"
        and resp = "\<lparr>status = 200, content_type = Some ''application/json'',
                     data = json_123\<rparr>"]
      gf df by simp
  note at_file = strategies_in_order [OF sample_read sample_decode t3 t4,
      where l = ?f and t = ?s1 and r = json_123 and t' = ?s2 and rest = "[?p]"]
  have loop: "links_loop ?T [''#top'', ?d, ?f, ?p] s0 = (json_123, ?s2)"
    using at_top at_down at_file sk cd cf tj by simp
  have pre2: "links_loop ?T [''#top'', ?d] s0 = (JNull, ?s1)"
    using strategies_in_order [OF sample_read sample_decode t3 t4,
        where l = "''#top''" and t = s0 and rest = "[?d]"]
      strategies_in_order [OF sample_read sample_decode t3 t4,
        where l = ?d and t = s0 and r = JNull and t' = ?s1 and rest = "[]"]
      strategies_in_order [OF sample_read sample_decode t3 t4, where t = ?s1]
      sk cd by simp
  have app: "links_loop ?T ([''#top'', ?d] @ [?p]) s0 = links_loop ?T [?p] ?s1"
    using strategies_in_order [OF sample_read sample_decode t3 t4,
        where pre = "[''#top'', ?d]" and t = s0 and rp = JNull and tp = ?s1
          and rest = "[?p]"]
      pre2 by simp
  have chase: "checkLinkForJson ?T ?p s0 =
     extractJsonFromHtmlPage ?T page_out ?p
       \<lparr>world = (), trace = [Debug_CheckingLink ?p, HttpGet ?p]\<rparr>"
    using strategies_in_order [OF sample_read sample_decode t3 t4,
      where l = ?p and t = s0 and w' = "()" and page = page_out
        and resp = "\<lparr>status = 200, content_type = Some ''text/html; charset=utf-8'',
             data = JString page_out\<rparr>"]
      gp dp by (simp add: s0_def)
  from good two bh broken lh late loop app chase show ?thesis by simp
qed

text \<open>
  C4, as the code has it. The scan stops at the first candidate that parses and returns
  its value, scalar or not. The caller returns that value as the result of the request
  when it is truthy. When it is falsy, as the number 0, \<^verbatim>\<open>false\<close>, \<^verbatim>\<open>null\<close> and the
  empty string are, the caller goes on to the link strategies, and the outcome is theirs:
  a truthy value found by a link, or \<open>NotFoundException\<close>.
\<close>

theorem parsed_attachment_returned_when_truthy:
  assumes "getEmailContent E source (emit (Log_ProcessingEmail source) s) = (Inr buf, s1)"
    and "simpleParser E buf = Some parsed"
    and "attachments parsed = pre @ a # post"
    and "\<forall>b\<in>set pre. isJsonAttachment b \<longrightarrow> parsed_content E b = None"
    and "isJsonAttachment a"
    and "parsed_content E a = Some v"
    and "s2 = s1\<lparr>trace := trace s1 @ Log_CheckingAttachments # failed_warnings pre\<rparr>"
    and "extractJsonFromLinks E (html parsed) (text_body parsed) (emit Log_CheckingLinks s2)
           = (lj, s3)"
  shows
    "(truthy v \<longrightarrow>
        processEmail E source s = (Inr v, emit Log_JsonFoundInAttachments s2)) \<and>
     (\<not> truthy v \<and> truthy lj \<longrightarrow>
        processEmail E source s = (Inr lj, emit Log_JsonFoundViaLinks s3)) \<and>
     (\<not> truthy v \<and> \<not> truthy lj \<longrightarrow>
        processEmail E source s = (Inl NotFoundException, s3)) \<and>
     \<not> truthy (JNumber (Num 0)) \<and> \<not> truthy (JBool False) \<and> \<not> truthy JNull \<and>
     \<not> truthy (JString [])"
proof -
  have "attachments_loop E (pre @ a # post) (emit Log_CheckingAttachments s1) =
      attachments_loop E (a # post)
        ((emit Log_CheckingAttachments s1)
           \<lparr>trace := trace (emit Log_CheckingAttachments s1) @ failed_warnings pre\<rparr>)"
    using assms(4) by (rule attachments_loop_skip)
  then have scan:
    "extractJsonFromAttachments E parsed (emit Log_CheckingAttachments s1) = (v, s2)"
    using assms(3,5,6,7)
    by (simp add: extractJsonFromAttachments_def parsed_content_def emit_def)
  show ?thesis
    using assms(1,2,8) scan by (simp add: processEmail_def)
qed

theorem parsed_attachment_returned_when_truthy_witness:
  "processEmail (sample_env mail_true_attachment) ''mail.eml'' s0 =
     (Inr (JBool True),
      \<lparr>world = (), trace = [Log_ProcessingEmail ''mail.eml'', Log_CheckingAttachments,
                            Log_JsonFoundInAttachments]\<rparr>) \<and>
   processEmail (sample_env mail_zero_attachment) ''mail.eml'' s0 =
     (Inr json_123,
      \<lparr>world = (),
       trace = [Log_ProcessingEmail ''mail.eml'', Log_CheckingAttachments, Log_CheckingLinks,
                Debug_CheckingLink ''https://host/file.json'',
                HttpGet ''https://host/file.json'', Log_JsonFoundViaLinks]\<rparr>) \<and>
   processEmail (sample_env (mail_zero_attachment\<lparr>html := None\<rparr>)) ''mail.eml'' s0 =
     (Inl NotFoundException,
      \<lparr>world = (), trace = [Log_ProcessingEmail ''mail.eml'', Log_CheckingAttachments,
                            Log_CheckingLinks]\<rparr>)"
proof -
  let ?t = "\<lparr>contentType = ''application/json'', filename = None, content = ''true''\<rparr>"
  let ?z = "\<lparr>contentType = ''text/plain'', filename = Some ''Zero.JSON'', content = ''0''\<rparr>"
  let ?T = "sample_env mail_true_attachment"
  let ?Z = "sample_env mail_zero_attachment"
  let ?N = "sample_env (mail_zero_attachment\<lparr>html := None\<rparr>)"
  let ?s2 = "s_read\<lparr>trace := trace s_read @ Log_CheckingAttachments #
                        failed_warnings ([] :: string attachment list)\<rparr>"
  have none: "\<forall>b\<in>set []. isJsonAttachment b \<longrightarrow> parsed_content E b = None" for E :: "(unit, string) env"
    by simp
  have ct: "isJsonAttachment ?t" by code_simp
  have cz: "isJsonAttachment ?z" by code_simp
  have pt: "parsed_content ?T ?t = Some (JBool True)" by code_simp
  have pz: "parsed_content ?Z ?z = Some (JNumber (Num 0))" by code_simp
  have pn: "parsed_content ?N ?z = Some (JNumber (Num 0))" by code_simp
  have at: "attachments mail_true_attachment = [] @ ?t # []"
    by (simp add: mail_true_attachment_def)
  have az: "attachments mail_zero_attachment = [] @ ?z # []"
    by (simp add: mail_zero_attachment_def)
  have an: "attachments (mail_zero_attachment\<lparr>html := None\<rparr>) = [] @ ?z # []"
    by (simp add: mail_zero_attachment_def)
  obtain tlj ts3 where lt: "extractJsonFromLinks ?T (html mail_true_attachment)
      (text_body mail_true_attachment) (emit Log_CheckingLinks ?s2) = (tlj, ts3)"
    by (meson surj_pair)
  have lz: "extractJsonFromLinks ?Z (html mail_zero_attachment)
      (text_body mail_zero_attachment) (emit Log_CheckingLinks ?s2) =
      (json_123,
       \<lparr>world = (),
        trace = [Log_ProcessingEmail ''mail.eml'', Log_CheckingAttachments, Log_CheckingLinks,
                Debug_CheckingLink ''https://host/file.json'',
                HttpGet ''https://host/file.json'']\<rparr>)"
    by code_simp
  have ln: "extractJsonFromLinks ?N (html (mail_zero_attachment\<lparr>html := None\<rparr>))
      (text_body (mail_zero_attachment\<lparr>html := None\<rparr>)) (emit Log_CheckingLinks ?s2) =
      (JNull,
       \<lparr>world = (),
        trace = [Log_ProcessingEmail ''mail.eml'', Log_CheckingAttachments,
                 Log_CheckingLinks]\<rparr>)"
    by code_simp
  have 1: "processEmail ?T ''mail.eml'' s0 =
     (Inr (JBool True),
      \<lparr>world = (), trace = [Log_ProcessingEmail ''mail.eml'', Log_CheckingAttachments,
                            Log_JsonFoundInAttachments]\<rparr>)"
    using parsed_attachment_returned_when_truthy
        [OF sample_read sample_decode at none ct pt refl lt]
    by (simp add: emit_def s_read_def failed_warnings_def)
  have 2: "processEmail ?Z ''mail.eml'' s0 =
     (Inr json_123,
      \<lparr>world = (),
       trace = [Log_ProcessingEmail ''mail.eml'', Log_CheckingAttachments, Log_CheckingLinks,
                Debug_CheckingLink ''https://host/file.json'',
                HttpGet ''https://host/file.json'', Log_JsonFoundViaLinks]\<rparr>)"
    using parsed_attachment_returned_when_truthy
        [OF sample_read sample_decode az none cz pz refl lz]
    by (simp add: emit_def json_123_def)
  have 3: "processEmail ?N ''mail.eml'' s0 =
     (Inl NotFoundException,
      \<lparr>world = (), trace = [Log_ProcessingEmail ''mail.eml'', Log_CheckingAttachments,
                            Log_CheckingLinks]\<rparr>)"
    using parsed_attachment_returned_when_truthy
        [OF sample_read sample_decode an none cz pn refl ln]
    by simp
  from 1 2 3 show ?thesis by simp
qed

text \<open>
  C4 as the specification states it fails: the attachment of this message is a candidate
  with the content \<^verbatim>\<open>0\<close>, and the request returns what the body link yields; without
  the body, it ends in \<open>NotFoundException\<close>.
\<close>

theorem scalar_attachment_counterexample:
  "isJsonAttachment (attachments mail_zero_attachment ! 0) \<and>
   parsed_content (sample_env mail_zero_attachment) (attachments mail_zero_attachment ! 0) =
     Some (JNumber (Num 0)) \<and>
   fst (processEmail (sample_env mail_zero_attachment) ''mail.eml'' s0) = Inr json_123 \<and>
   json_123 \<noteq> JNumber (Num 0) \<and>
   fst (processEmail (sample_env (mail_zero_attachment\<lparr>html := None\<rparr>)) ''mail.eml'' s0) =
     Inl NotFoundException"
  by code_simp

end
